theory Spec2Isabelle
  imports Main "HOL-Library.Word"
begin

section \<open>The identity registry contract (contracts/IdentityManager.sol)\<close>

text \<open>
  Solidity's \<open>address\<close> is a 160-bit word and \<open>uint256\<close> a 256-bit word; a \<open>string\<close> is a
  sequence of bytes. A mapping is total: a key never written reads as the zero value of
  the value type.
\<close>

type_synonym address = "160 word"
type_synonym uint256 = "256 word"

record Identity =
  name :: string
  email :: string
  hashedAadhaar :: string
  ethAddress :: address
  registrationTime :: uint256
  isActive :: bool

datatype event = IdentityRegistered address string string uint256

record contract =
  identities :: "address \<Rightarrow> Identity"
  emailExists :: "string \<Rightarrow> bool"
  aadhaarExists :: "string \<Rightarrow> bool"
  registeredUsers :: "address list"
  events :: "event list"

text \<open>The messages of the contract's \<open>require\<close> statements; a failed \<open>require\<close> reverts the call.\<close>

datatype revert =
    Name_cannot_be_empty
  | Email_cannot_be_empty
  | Hashed_Aadhaar_cannot_be_empty
  | Identity_already_registered
  | Email_already_registered
  | Aadhaar_already_registered
  | Invalid_address
  | Identity_not_found_or_inactive

definition zero_Identity :: Identity where
  "zero_Identity = \<lparr>name = [], email = [], hashedAadhaar = [], ethAddress = 0,
     registrationTime = 0, isActive = False\<rparr>"

text \<open>The storage of a freshly deployed contract.\<close>

definition deployed :: contract where
  "deployed = \<lparr>identities = (\<lambda>_. zero_Identity), emailExists = (\<lambda>_. False),
     aadhaarExists = (\<lambda>_. False), registeredUsers = [], events = []\<rparr>"

text \<open>
  \<open>registerIdentity\<close>: \<open>msg_sender\<close> and \<open>block_timestamp\<close> are the transaction's
  \<open>msg.sender\<close> and \<open>block.timestamp\<close>. The six \<open>require\<close>s are checked in the order of the
  source; on success the record is written, both flags are set, the sender is pushed to
  \<open>registeredUsers\<close> and the event is emitted. (The source file lacks the brace that
  closes this function; its body is read as ending with the \<open>emit\<close>.) The contract
  declares the events \<open>IdentityUpdated\<close> and \<open>IdentityDeactivated\<close> but has no function
  that updates or deactivates a record: \<open>registerIdentity\<close> is its only function that
  changes the storage.
\<close>

definition registerIdentity ::
  "address \<Rightarrow> uint256 \<Rightarrow> string \<Rightarrow> string \<Rightarrow> string \<Rightarrow> contract \<Rightarrow> revert + contract" where
  "registerIdentity msg_sender block_timestamp n e h s =
    (if \<not> length n > 0 then Inl Name_cannot_be_empty
     else if \<not> length e > 0 then Inl Email_cannot_be_empty
     else if \<not> length h > 0 then Inl Hashed_Aadhaar_cannot_be_empty
     else if isActive (identities s msg_sender) then Inl Identity_already_registered
     else if emailExists s e then Inl Email_already_registered
     else if aadhaarExists s h then Inl Aadhaar_already_registered
     else Inr (s\<lparr>
       identities := (identities s)(msg_sender :=
         \<lparr>name = n, email = e, hashedAadhaar = h, ethAddress = msg_sender,
          registrationTime = block_timestamp, isActive = True\<rparr>),
       emailExists := (emailExists s)(e := True),
       aadhaarExists := (aadhaarExists s)(h := True),
       registeredUsers := registeredUsers s @ [msg_sender],
       events := events s @ [IdentityRegistered msg_sender n e block_timestamp]\<rparr>))"

text \<open>The modifier \<open>validAddress\<close> guards both views: the zero address reverts.\<close>

definition getIdentity :: "address \<Rightarrow> contract \<Rightarrow> revert + Identity" where
  "getIdentity userAddress s =
    (if \<not> userAddress \<noteq> 0 then Inl Invalid_address
     else if \<not> isActive (identities s userAddress) then Inl Identity_not_found_or_inactive
     else Inr (identities s userAddress))"

definition isRegistered :: "address \<Rightarrow> contract \<Rightarrow> revert + bool" where
  "isRegistered userAddress s =
    (if \<not> userAddress \<noteq> 0 then Inl Invalid_address
     else Inr (isActive (identities s userAddress)))"

definition isEmailRegistered :: "string \<Rightarrow> contract \<Rightarrow> bool" where
  "isEmailRegistered e s = emailExists s e"

text \<open>
  A registration attempt is a transaction: sender, block timestamp and the three
  arguments. A reverted transaction leaves the storage as it was.
\<close>

record attempt =
  a_sender :: address
  a_time :: uint256
  a_name :: string
  a_email :: string
  a_aadhaar :: string

definition transact :: "contract \<Rightarrow> attempt \<Rightarrow> contract" where
  "transact s c =
    (case registerIdentity (a_sender c) (a_time c) (a_name c) (a_email c) (a_aadhaar c) s of
       Inl _ \<Rightarrow> s
     | Inr s' \<Rightarrow> s')"

definition run_attempts :: "contract \<Rightarrow> attempt list \<Rightarrow> contract" where
  "run_attempts s cs = foldl transact s cs"

text \<open>
  Predicates used to state the registry's properties: an email (an Aadhaar hash) is held
  by some active record, and the invariant that ties the two flag mappings to the active
  records.
\<close>

definition active_email :: "contract \<Rightarrow> string \<Rightarrow> bool" where
  "active_email s e \<longleftrightarrow> (\<exists>a. isActive (identities s a) \<and> email (identities s a) = e)"

definition active_aadhaar :: "contract \<Rightarrow> string \<Rightarrow> bool" where
  "active_aadhaar s h \<longleftrightarrow> (\<exists>a. isActive (identities s a) \<and> hashedAadhaar (identities s a) = h)"

definition registry_inv :: "contract \<Rightarrow> bool" where
  "registry_inv s \<longleftrightarrow>
     (\<forall>e. emailExists s e = active_email s e) \<and>
     (\<forall>h. aadhaarExists s h = active_aadhaar s h) \<and>
     (\<forall>a b. isActive (identities s a) \<and> isActive (identities s b) \<and>
        email (identities s a) = email (identities s b) \<longrightarrow> a = b) \<and>
     (\<forall>a b. isActive (identities s a) \<and> isActive (identities s b) \<and>
        hashedAadhaar (identities s a) = hashedAadhaar (identities s b) \<longrightarrow> a = b)"

text \<open>Sample transactions.\<close>

definition alice :: attempt where
  "alice = \<lparr>a_sender = 10, a_time = 100, a_name = ''alice'', a_email = ''a@x.com'', a_aadhaar = ''H1''\<rparr>"
definition bob :: attempt where
  "bob = \<lparr>a_sender = 11, a_time = 101, a_name = ''bob'', a_email = ''a@x.com'', a_aadhaar = ''H2''\<rparr>"
definition carol :: attempt where
  "carol = \<lparr>a_sender = 12, a_time = 102, a_name = ''carol'', a_email = ''c@x.com'', a_aadhaar = ''H1''\<rparr>"
definition dave :: attempt where
  "dave = \<lparr>a_sender = 13, a_time = 103, a_name = ''dave'', a_email = ''d@x.com'', a_aadhaar = ''H4''\<rparr>"

section \<open>Base64 helpers (webauthn/webauthn-utils.js)\<close>

text \<open>
  A \<open>Buffer\<close> is a sequence of bytes. \<open>buffer.toString('base64')\<close> and
  \<open>Buffer.from(s, 'base64')\<close> are primitives of the runtime. The encoder is the one of
  RFC 4648: three bytes give four characters of the standard alphabet, and a last group
  of one or two bytes is padded with \<open>=\<close> to four characters. The decoder is lenient: it
  accepts the URL-safe characters \<open>-\<close> and \<open>_\<close> as well, skips every other character
  outside the alphabet, stops at the first \<open>=\<close>, and drops a last group of fewer than
  two characters. The encoder only ever looks up numbers below 64 in the alphabet.
\<close>

type_synonym byte = "8 word"

definition base64_table :: string where
  "base64_table = ''ABCDEFGHIJKLMNOPQRSTUVWXYZabcdefghijklmnopqrstuvwxyz0123456789+/''"

definition b64 :: "nat \<Rightarrow> char" where
  "b64 n = base64_table ! (n mod 64)"

fun toString_base64 :: "byte list \<Rightarrow> string" where
  "toString_base64 (a # b # c # rest) =
     [b64 (unat a div 4),
      b64 ((unat a mod 4) * 16 + unat b div 16),
      b64 ((unat b mod 16) * 4 + unat c div 64),
      b64 (unat c mod 64)] @ toString_base64 rest"
| "toString_base64 [a, b] =
     [b64 (unat a div 4),
      b64 ((unat a mod 4) * 16 + unat b div 16),
      b64 ((unat b mod 16) * 4),
      CHR ''='']"
| "toString_base64 [a] =
     [b64 (unat a div 4),
      b64 ((unat a mod 4) * 16),
      CHR ''='', CHR ''='']"
| "toString_base64 [] = []"

fun index_of :: "'a \<Rightarrow> 'a list \<Rightarrow> nat option" where
  "index_of x [] = None"
| "index_of x (y # ys) =
     (if x = y then Some 0 else map_option Suc (index_of x ys))"

definition unbase64 :: "char \<Rightarrow> nat option" where
  "unbase64 c =
     (if c = CHR ''-'' then Some 62
      else if c = CHR ''_'' then Some 63
      else index_of c base64_table)"

fun decode_sextets :: "nat list \<Rightarrow> byte list" where
  "decode_sextets (s0 # s1 # s2 # s3 # rest) =
     [of_nat (s0 * 4 + s1 div 16),
      of_nat ((s1 mod 16) * 16 + s2 div 4),
      of_nat ((s2 mod 4) * 64 + s3)] @ decode_sextets rest"
| "decode_sextets [s0, s1, s2] =
     [of_nat (s0 * 4 + s1 div 16),
      of_nat ((s1 mod 16) * 16 + s2 div 4)]"
| "decode_sextets [s0, s1] = [of_nat (s0 * 4 + s1 div 16)]"
| "decode_sextets [s0] = []"
| "decode_sextets [] = []"

definition from_base64 :: "string \<Rightarrow> byte list" where
  "from_base64 s =
     decode_sextets (List.map_filter unbase64 (takeWhile (\<lambda>c. c \<noteq> CHR ''='') s))"

text \<open>
  \<open>s.replace(/c/g, r)\<close> for a pattern that is one literal character: every occurrence
  of \<open>c\<close> is replaced by the string \<open>r\<close>.
\<close>

definition replace_all :: "char \<Rightarrow> string \<Rightarrow> string \<Rightarrow> string" where
  "replace_all c r s = concat (map (\<lambda>x. if x = c then r else [x]) s)"

definition base64URLToBuffer :: "string \<Rightarrow> byte list" where
  "base64URLToBuffer base64url =
     (let base64 = replace_all CHR ''_'' ''/'' (replace_all CHR ''-'' ''+'' base64url);
          padded = base64 @ replicate ((4 - length base64 mod 4) mod 4) CHR ''=''
      in from_base64 padded)"

definition bufferToBase64URL :: "byte list \<Rightarrow> string" where
  "bufferToBase64URL buffer =
     replace_all CHR ''='' ''''
       (replace_all CHR ''/'' ''_''
         (replace_all CHR ''+'' ''-'' (toString_base64 buffer)))"

text \<open>
  \<open>buffer.toString('base64url')\<close>, the runtime's own URL-safe encoding: the alphabet
  with \<open>-\<close> and \<open>_\<close>, and no padding.
\<close>

definition toString_base64url :: "byte list \<Rightarrow> string" where
  "toString_base64url buffer =
     filter (\<lambda>c. c \<noteq> CHR ''='')
       (map (\<lambda>c. if c = CHR ''+'' then CHR ''-'' else if c = CHR ''/'' then CHR ''_'' else c)
         (toString_base64 buffer))"

section \<open>Credential verification (webauthn/webauthn-utils.js)\<close>

text \<open>The fields set by the constructor of \<open>WebAuthnUtils\<close>.\<close>

record WebAuthnUtils =
  rpName :: string
  rpId :: string
  origin :: string

text \<open>
  The credential of a request body, at the types a WebAuthn client sends: a field that
  is absent is \<open>None\<close>. The JSON text inside \<open>clientDataJSON\<close> is read by the runtime's
  \<open>JSON.parse\<close>, a parameter \<open>json_parse\<close> of the model: it returns the two fields the
  code reads, or the message of the exception raised (by \<open>JSON.parse\<close> itself, or by
  reading a property of \<open>null\<close>).
\<close>

record authenticator_response =
  clientDataJSON :: "string option"
  attestationObject :: "string option"

record credential =
  cred_id :: "string option"
  response :: "authenticator_response option"

record clientData =
  cd_challenge :: "string option"
  cd_origin :: "string option"

type_synonym json_parser = "byte list \<Rightarrow> string + clientData"

record registration_verified =
  rv_credentialId :: string
  rv_publicKey :: "string option"
  rv_counter :: nat

text \<open>
  The record kept for an email. Its counter is a JavaScript number, a double; the code
  writes 0 and results of \<open>counter + 1\<close> only, so the values are the doubles that are
  natural numbers. \<open>js_add_one\<close> is \<open>counter + 1\<close> in double arithmetic on those: exact
  below \<open>2^53\<close>; from \<open>2^53\<close> to \<open>2^54\<close> the doubles are the even numbers and the sum is a
  tie, rounded to the neighbour whose significand is even; from \<open>2^54\<close> on the sum rounds
  back to the counter.
\<close>

definition js_add_one :: "nat \<Rightarrow> nat" where
  "js_add_one n =
    (if n < 2 ^ 53 then n + 1
     else if n < 2 ^ 54 then (if even (n div 2) then n else n + 2)
     else n)"

record stored_credential =
  credentialId :: string
  publicKey :: "string option"
  counter :: nat
  sc_email :: string
  sc_name :: "string option"
  registeredAt :: nat

text \<open>
  Both verification functions catch every exception and return \<open>verified: false\<close> with
  the exception's message: the result is the message (\<open>Inl\<close>) or the verified data.
  Calling \<open>replace\<close> on an absent \<open>clientDataJSON\<close> raises a \<open>TypeError\<close>.
\<close>

definition verifyRegistrationCredential ::
  "WebAuthnUtils \<Rightarrow> json_parser \<Rightarrow> credential option \<Rightarrow> string \<Rightarrow> string + registration_verified" where
  "verifyRegistrationCredential this json_parse credential expectedChallenge =
    (case credential of
       None \<Rightarrow> Inl ''Invalid credential format''
     | Some c \<Rightarrow>
        (case cred_id c of
           None \<Rightarrow> Inl ''Invalid credential format''
         | Some i \<Rightarrow>
            if i = [] then Inl ''Invalid credential format''
            else (case response c of
               None \<Rightarrow> Inl ''Invalid credential format''
             | Some r \<Rightarrow>
                (case clientDataJSON r of
                   None \<Rightarrow> Inl ''Cannot read properties of undefined (reading 'replace')''
                 | Some j \<Rightarrow>
                    (case json_parse (base64URLToBuffer j) of
                       Inl message \<Rightarrow> Inl message
                     | Inr clientData \<Rightarrow>
                        if cd_challenge clientData \<noteq> Some expectedChallenge
                          then Inl ''Challenge mismatch''
                        else if cd_origin clientData \<noteq> Some (origin this)
                          then Inl ''Origin mismatch''
                        else Inr \<lparr>rv_credentialId = i,
                                  rv_publicKey = attestationObject r,
                                  rv_counter = 0\<rparr>)))))"

definition verifyAuthenticationCredential ::
  "WebAuthnUtils \<Rightarrow> json_parser \<Rightarrow> credential option \<Rightarrow> string \<Rightarrow> stored_credential
     \<Rightarrow> string + nat" where
  "verifyAuthenticationCredential this json_parse credential expectedChallenge storedCredential =
    (case credential of
       None \<Rightarrow> Inl ''Invalid credential format''
     | Some c \<Rightarrow>
        (case cred_id c of
           None \<Rightarrow> Inl ''Invalid credential format''
         | Some i \<Rightarrow>
            if i = [] then Inl ''Invalid credential format''
            else (case response c of
               None \<Rightarrow> Inl ''Invalid credential format''
             | Some r \<Rightarrow>
                if i \<noteq> credentialId storedCredential then Inl ''Credential ID mismatch''
                else (case clientDataJSON r of
                   None \<Rightarrow> Inl ''Cannot read properties of undefined (reading 'replace')''
                 | Some j \<Rightarrow>
                    (case json_parse (base64URLToBuffer j) of
                       Inl message \<Rightarrow> Inl message
                     | Inr clientData \<Rightarrow>
                        if cd_challenge clientData \<noteq> Some expectedChallenge
                          then Inl ''Challenge mismatch''
                        else if cd_origin clientData \<noteq> Some (origin this)
                          then Inl ''Origin mismatch''
                        else Inr (js_add_one (counter storedCredential)))))))"

record registration_options =
  ro_challenge :: string
  ro_rp_name :: string
  ro_rp_id :: string
  ro_user_id :: string
  ro_user_name :: string
  ro_user_displayName :: string
  ro_pubKeyCredParams :: "(int \<times> string) list"
  ro_authenticatorAttachment :: string
  ro_userVerification :: string
  ro_requireResidentKey :: bool
  ro_timeout :: nat
  ro_attestation :: string

text \<open>
  \<open>userId\<close> and \<open>challenge\<close> are the two results of \<open>crypto.randomBytes(32)\<close>, supplied
  by the environment.
\<close>

definition generateRegistrationOptions ::
  "WebAuthnUtils \<Rightarrow> byte list \<Rightarrow> byte list \<Rightarrow> string \<Rightarrow> string \<Rightarrow> registration_options" where
  "generateRegistrationOptions this userId challenge userEmail userName =
    \<lparr>ro_challenge = toString_base64url challenge,
     ro_rp_name = rpName this,
     ro_rp_id = rpId this,
     ro_user_id = toString_base64url userId,
     ro_user_name = userEmail,
     ro_user_displayName = userName,
     ro_pubKeyCredParams = [(- 7, ''public-key''), (- 257, ''public-key'')],
     ro_authenticatorAttachment = ''platform'',
     ro_userVerification = ''required'',
     ro_requireResidentKey = False,
     ro_timeout = 60000,
     ro_attestation = ''direct''\<rparr>"

record allowed_credential =
  ac_id :: string
  ac_type :: string
  ac_transports :: "string list"

record authentication_options =
  ao_challenge :: string
  ao_timeout :: nat
  ao_rpId :: string
  ao_allowCredentials :: "allowed_credential list"
  ao_userVerification :: string

definition generateAuthenticationOptions ::
  "WebAuthnUtils \<Rightarrow> byte list \<Rightarrow> string list \<Rightarrow> authentication_options" where
  "generateAuthenticationOptions this challenge allowCredentials =
    \<lparr>ao_challenge = toString_base64url challenge,
     ao_timeout = 60000,
     ao_rpId = rpId this,
     ao_allowCredentials = map (\<lambda>credId.
        \<lparr>ac_id = credId, ac_type = ''public-key'', ac_transports = [''internal'', ''hybrid'']\<rparr>)
        allowCredentials,
     ao_userVerification = ''required''\<rparr>"

section \<open>The ceremony routes (the router of /api/auth)\<close>

text \<open>
  The router's state: the in-memory map \<open>challenges\<close> and the persistent
  \<open>localStorage\<close>, whose values are the stored credentials (written with
  \<open>JSON.stringify\<close> and read back with \<open>JSON.parse\<close>). Times are the millisecond
  readings of \<open>Date.now()\<close>; every reading a handler takes is a parameter of its model.
\<close>

record challenge_data =
  challenge :: string
  ch_email :: string
  ch_name :: "string option"
  expires :: nat

record server =
  challenges :: "string \<rightharpoonup> challenge_data"
  localStorage :: "string \<rightharpoonup> stored_credential"

record token_payload =
  tp_email :: string
  tp_name :: "string option"
  authenticatedAt :: nat
  authMethod :: string

text \<open>
  \<open>jwt.sign\<close> with the configured secret and the options of the route is a parameter
  \<open>jwt_sign\<close>: it returns the token, or \<open>None\<close> when the library raises (as it does when
  no secret is configured).
\<close>

type_synonym signer = "token_payload \<Rightarrow> string option"

text \<open>
  \<open>localStorage.setItem\<close> writes a file named after the key and raises when it cannot
  (a key too long for a file name, the quota exceeded). Whether it succeeds for a store,
  a key and a value is a parameter \<open>setItem_ok\<close> of the model. When it raises, the
  handler's \<open>catch\<close> answers 500 and nothing has been changed.
\<close>

type_synonym storage_check = "(string \<rightharpoonup> stored_credential) \<Rightarrow> string \<Rightarrow> stored_credential \<Rightarrow> bool"

text \<open>A response: an error with its status and message, or one of the four successes.\<close>

datatype reply =
    Error_reply nat string
  | Registration_begun registration_options string
  | Registration_completed
  | Authentication_begun authentication_options string
  | Authenticated string string "string option"

text \<open>The decimal digits of a number, as a template literal prints \<open>Date.now()\<close>.\<close>

fun dec :: "nat \<Rightarrow> string" where
  "dec n = (if n < 10 then [''0123456789'' ! n]
            else dec (n div 10) @ [''0123456789'' ! (n mod 10)])"

text \<open>
  \<open>emailRegex.test\<close> for \<open>/^[^\s@]+@[^\s@]+\.[^\s@]+$/\<close>: a non-empty part without
  white space before the only \<open>@\<close>, and after it a part without white space that has a
  dot with at least one character on each side. Strings are sequences of 8-bit
  characters here, so of the characters that \<open>\s\<close> matches those below 256 occur.
\<close>

definition is_space :: "char \<Rightarrow> bool" where
  "is_space c \<longleftrightarrow> c \<in> set [CHR 0x09, CHR 0x0A, CHR 0x0B, CHR 0x0C, CHR 0x0D, CHR 0x20, CHR 0xA0]"

definition emailRegex_test :: "string \<Rightarrow> bool" where
  "emailRegex_test s =
    (let local_part = takeWhile (\<lambda>c. c \<noteq> CHR ''@'') s;
         rest = dropWhile (\<lambda>c. c \<noteq> CHR ''@'') s
     in local_part \<noteq> [] \<and> list_all (\<lambda>c. \<not> is_space c) local_part \<and>
        (case rest of
           [] \<Rightarrow> False
         | _ # domain_part \<Rightarrow>
             list_all (\<lambda>c. \<not> is_space c \<and> c \<noteq> CHR ''@'') domain_part \<and>
             CHR ''.'' \<in> set (butlast (tl domain_part))))"

definition cleanupExpiredChallenges :: "nat \<Rightarrow> server \<Rightarrow> server" where
  "cleanupExpiredChallenges now s =
    s\<lparr>challenges := (\<lambda>key.
        case challenges s key of
          None \<Rightarrow> None
        | Some data \<Rightarrow> if now > expires data then None else Some data)\<rparr>"

definition register_key :: "string \<Rightarrow> nat \<Rightarrow> string" where
  "register_key e now = ''challenge_'' @ e @ ''_'' @ dec now"

definition login_key :: "string \<Rightarrow> nat \<Rightarrow> string" where
  "login_key e now = ''auth_challenge_'' @ e @ ''_'' @ dec now"

text \<open>
  \<open>POST /register/begin\<close>. \<open>now_key\<close> is the clock reading inside the key, \<open>now_expires\<close>
  the later reading that sets the expiry.
\<close>

definition register_begin ::
  "WebAuthnUtils \<Rightarrow> string option \<Rightarrow> string option \<Rightarrow> byte list \<Rightarrow> byte list \<Rightarrow> nat \<Rightarrow> nat
     \<Rightarrow> server \<Rightarrow> reply \<times> server" where
  "register_begin this email_field name_field userId challengeBytes now_key now_expires s =
    (case email_field of
       None \<Rightarrow> (Error_reply 400 ''Email and name are required'', s)
     | Some e \<Rightarrow>
      (case name_field of
         None \<Rightarrow> (Error_reply 400 ''Email and name are required'', s)
       | Some n \<Rightarrow>
          if e = [] \<or> n = [] then (Error_reply 400 ''Email and name are required'', s)
          else if \<not> emailRegex_test e then (Error_reply 400 ''Invalid email format'', s)
          else if localStorage s (''webauthn_'' @ e) \<noteq> None
            then (Error_reply 400 ''User already has biometric credentials registered'', s)
          else
            (let options = generateRegistrationOptions this userId challengeBytes e n;
                 challengeKey = register_key e now_key
             in (Registration_begun options challengeKey,
                 s\<lparr>challenges := (challenges s)(challengeKey \<mapsto>
                     \<lparr>challenge = ro_challenge options, ch_email = e, ch_name = Some n,
                      expires = now_expires + 5 * 60 * 1000\<rparr>)\<rparr>))))"

text \<open>
  \<open>POST /register/complete\<close>. \<open>now\<close> is the reading compared with the expiry,
  \<open>now_stored\<close> the one recorded as \<open>registeredAt\<close>. The challenge is deleted after the
  credential is stored: when \<open>setItem\<close> raises, the \<open>catch\<close> answers 500 with the
  challenge still stored.
\<close>

definition register_complete ::
  "WebAuthnUtils \<Rightarrow> json_parser \<Rightarrow> storage_check \<Rightarrow> credential option \<Rightarrow> string option
     \<Rightarrow> nat \<Rightarrow> nat \<Rightarrow> server \<Rightarrow> reply \<times> server" where
  "register_complete this json_parse setItem_ok credential_field key_field now now_stored s =
    (case credential_field of
       None \<Rightarrow> (Error_reply 400 ''Credential and challenge key are required'', s)
     | Some c \<Rightarrow>
      (case key_field of
         None \<Rightarrow> (Error_reply 400 ''Credential and challenge key are required'', s)
       | Some challengeKey \<Rightarrow>
          if challengeKey = [] then (Error_reply 400 ''Credential and challenge key are required'', s)
          else (case challenges s challengeKey of
             None \<Rightarrow> (Error_reply 400 ''Invalid or expired challenge'', s)
           | Some challengeData \<Rightarrow>
              if now > expires challengeData
                then (Error_reply 400 ''Challenge expired'',
                      s\<lparr>challenges := (challenges s)(challengeKey := None)\<rparr>)
              else (case verifyRegistrationCredential this json_parse (Some c)
                           (challenge challengeData) of
                 Inl err \<Rightarrow>
                   (Error_reply 400 (if err = [] then ''Registration verification failed'' else err),
                    s\<lparr>challenges := (challenges s)(challengeKey := None)\<rparr>)
               | Inr verification \<Rightarrow>
                  (let credentialData =
                        \<lparr>credentialId = rv_credentialId verification,
                         publicKey = rv_publicKey verification,
                         counter = rv_counter verification,
                         sc_email = ch_email challengeData,
                         sc_name = ch_name challengeData,
                         registeredAt = now_stored\<rparr>
                   in if \<not> setItem_ok (localStorage s) (''webauthn_'' @ ch_email challengeData)
                             credentialData
                        then (Error_reply 500 ''Failed to complete registration'', s)
                      else
                        (Registration_completed,
                         s\<lparr>localStorage := (localStorage s)
                              (''webauthn_'' @ ch_email challengeData \<mapsto> credentialData),
                           challenges := (challenges s)(challengeKey := None)\<rparr>))))))"

text \<open>\<open>POST /login/begin\<close>.\<close>

definition login_begin ::
  "WebAuthnUtils \<Rightarrow> string option \<Rightarrow> byte list \<Rightarrow> nat \<Rightarrow> nat \<Rightarrow> server \<Rightarrow> reply \<times> server" where
  "login_begin this email_field challengeBytes now_key now_expires s =
    (case email_field of
       None \<Rightarrow> (Error_reply 400 ''Email is required'', s)
     | Some e \<Rightarrow>
        if e = [] then (Error_reply 400 ''Email is required'', s)
        else if \<not> emailRegex_test e then (Error_reply 400 ''Invalid email format'', s)
        else (case localStorage s (''webauthn_'' @ e) of
           None \<Rightarrow> (Error_reply 404 ''No biometric credentials found for this user'', s)
         | Some cred \<Rightarrow>
            (let options = generateAuthenticationOptions this challengeBytes [credentialId cred];
                 challengeKey = login_key e now_key
             in (Authentication_begun options challengeKey,
                 s\<lparr>challenges := (challenges s)(challengeKey \<mapsto>
                     \<lparr>challenge = ao_challenge options, ch_email = e, ch_name = None,
                      expires = now_expires + 5 * 60 * 1000\<rparr>)\<rparr>))))"

text \<open>
  \<open>POST /login/complete\<close>. \<open>now\<close> is the reading compared with the expiry, \<open>now_auth\<close>
  the one put into the token. The counter is written before the token is signed, and the
  challenge is deleted after: when \<open>setItem\<close> raises, the handler's \<open>catch\<close> answers 500
  with nothing changed, and when signing raises it answers 500 with the counter already
  written; in both cases the challenge is still stored.
\<close>

definition login_complete ::
  "WebAuthnUtils \<Rightarrow> json_parser \<Rightarrow> signer \<Rightarrow> storage_check \<Rightarrow> credential option
     \<Rightarrow> string option \<Rightarrow> nat \<Rightarrow> nat \<Rightarrow> server \<Rightarrow> reply \<times> server" where
  "login_complete this json_parse jwt_sign setItem_ok credential_field key_field now now_auth s =
    (case credential_field of
       None \<Rightarrow> (Error_reply 400 ''Credential and challenge key are required'', s)
     | Some c \<Rightarrow>
      (case key_field of
         None \<Rightarrow> (Error_reply 400 ''Credential and challenge key are required'', s)
       | Some challengeKey \<Rightarrow>
          if challengeKey = [] then (Error_reply 400 ''Credential and challenge key are required'', s)
          else (case challenges s challengeKey of
             None \<Rightarrow> (Error_reply 400 ''Invalid or expired challenge'', s)
           | Some challengeData \<Rightarrow>
              if now > expires challengeData
                then (Error_reply 400 ''Challenge expired'',
                      s\<lparr>challenges := (challenges s)(challengeKey := None)\<rparr>)
              else (case localStorage s (''webauthn_'' @ ch_email challengeData) of
                 None \<Rightarrow>
                   (Error_reply 404 ''Stored credential not found'',
                    s\<lparr>challenges := (challenges s)(challengeKey := None)\<rparr>)
               | Some storedCredential \<Rightarrow>
                  (case verifyAuthenticationCredential this json_parse (Some c)
                          (challenge challengeData) storedCredential of
                     Inl err \<Rightarrow>
                       (Error_reply 401
                          (if err = [] then ''Authentication verification failed'' else err),
                        s\<lparr>challenges := (challenges s)(challengeKey := None)\<rparr>)
                   | Inr new_counter \<Rightarrow>
                      if \<not> setItem_ok (localStorage s) (''webauthn_'' @ ch_email challengeData)
                             (storedCredential\<lparr>counter := new_counter\<rparr>)
                        then (Error_reply 500 ''Failed to complete authentication'', s)
                      else
                      (let s1 = s\<lparr>localStorage :=
                             (localStorage s)(''webauthn_'' @ ch_email challengeData \<mapsto>
                               storedCredential\<lparr>counter := new_counter\<rparr>)\<rparr>
                       in case jwt_sign \<lparr>tp_email = ch_email challengeData,
                                         tp_name = sc_name storedCredential,
                                         authenticatedAt = now_auth,
                                         authMethod = ''webauthn''\<rparr> of
                            None \<Rightarrow> (Error_reply 500 ''Failed to complete authentication'', s1)
                          | Some token \<Rightarrow>
                              (Authenticated token (ch_email challengeData)
                                 (sc_name storedCredential),
                               s1\<lparr>challenges := (challenges s1)(challengeKey := None)\<rparr>)))))))"

text \<open>
  The requests the router serves, and the sweep that the timer runs; serving a list of
  them from a state gives the state they leave.
\<close>

datatype request =
    Register_begin "string option" "string option" "byte list" "byte list" nat nat
  | Register_complete "credential option" "string option" nat nat
  | Login_begin "string option" "byte list" nat nat
  | Login_complete "credential option" "string option" nat nat
  | Cleanup nat

fun handle ::
  "WebAuthnUtils \<Rightarrow> json_parser \<Rightarrow> signer \<Rightarrow> storage_check \<Rightarrow> server \<Rightarrow> request \<Rightarrow> server" where
  "handle this jp sign ok s (Register_begin e n userId bytes t1 t2) =
     snd (register_begin this e n userId bytes t1 t2 s)"
| "handle this jp sign ok s (Register_complete c k t1 t2) =
     snd (register_complete this jp ok c k t1 t2 s)"
| "handle this jp sign ok s (Login_begin e bytes t1 t2) =
     snd (login_begin this e bytes t1 t2 s)"
| "handle this jp sign ok s (Login_complete c k t1 t2) =
     snd (login_complete this jp sign ok c k t1 t2 s)"
| "handle this jp sign ok s (Cleanup t) = cleanupExpiredChallenges t s"

definition serve ::
  "WebAuthnUtils \<Rightarrow> json_parser \<Rightarrow> signer \<Rightarrow> storage_check \<Rightarrow> server \<Rightarrow> request list
     \<Rightarrow> server" where
  "serve this jp sign ok s requests = foldl (handle this jp sign ok) s requests"

declare dec.simps [simp del]

text \<open>
  Sample configuration and requests: the constructor's default configuration, a parser
  that knows the client data of the sample credentials, a signer that never raises, and a
  run of the four ceremony calls for one user.
\<close>

definition this0 :: WebAuthnUtils where
  "this0 = \<lparr>rpName = ''Decentralized Identity System'', rpId = ''localhost'',
            origin = ''http://localhost:3000''\<rparr>"

definition sample_parse :: json_parser where
  "sample_parse bs =
    (if bs = [1] then Inr \<lparr>cd_challenge = Some ''AQID'', cd_origin = Some ''http://localhost:3000''\<rparr>
     else if bs = [2] then Inr \<lparr>cd_challenge = Some ''AQID'', cd_origin = Some ''http://evil.example''\<rparr>
     else Inl ''Unexpected end of JSON input'')"

definition sample_sign :: signer where
  "sample_sign p = Some (''token-for-'' @ tp_email p)"

definition failing_sign :: signer where
  "failing_sign p = None"

definition sample_storage :: storage_check where
  "sample_storage store key data \<longleftrightarrow> length key \<le> 255"

definition long_email :: string where
  "long_email = replicate 250 CHR ''a'' @ ''@x.com''"

definition good_credential :: credential where
  "good_credential = \<lparr>cred_id = Some ''cred-1'',
     response = Some \<lparr>clientDataJSON = Some ''AQ'', attestationObject = Some ''o2M''\<rparr>\<rparr>"

definition foreign_credential :: credential where
  "foreign_credential = \<lparr>cred_id = Some ''cred-1'',
     response = Some \<lparr>clientDataJSON = Some ''Ag'', attestationObject = Some ''o2M''\<rparr>\<rparr>"

definition empty_server :: server where
  "empty_server = \<lparr>challenges = Map.empty, localStorage = Map.empty\<rparr>"

definition begun1 :: "reply \<times> server" where
  "begun1 = register_begin this0 (Some ''a@x.com'') (Some ''Al'') [7] [1, 2, 3] 1000 1000
     empty_server"

definition begun2 :: "reply \<times> server" where
  "begun2 = register_begin this0 (Some ''a@x.com'') (Some ''Al'') [8] [4, 5, 6] 1000 1000
     (snd begun1)"

definition registered1 :: "reply \<times> server" where
  "registered1 = register_complete this0 sample_parse sample_storage (Some good_credential)
     (Some ''challenge_a@x.com_1000'') 2000 2000 (snd begun1)"

definition login_begun1 :: "reply \<times> server" where
  "login_begun1 = login_begin this0 (Some ''a@x.com'') [1, 2, 3] 5000 5000 (snd registered1)"

definition logged_in1 :: "reply \<times> server" where
  "logged_in1 = login_complete this0 sample_parse sample_sign sample_storage
     (Some good_credential) (Some ''auth_challenge_a@x.com_5000'') 6000 6000 (snd login_begun1)"

definition sign_failed1 :: "reply \<times> server" where
  "sign_failed1 = login_complete this0 sample_parse failing_sign sample_storage
     (Some good_credential) (Some ''auth_challenge_a@x.com_5000'') 6000 6000 (snd login_begun1)"

definition sign_failed2 :: "reply \<times> server" where
  "sign_failed2 = login_complete this0 sample_parse failing_sign sample_storage
     (Some good_credential) (Some ''auth_challenge_a@x.com_5000'') 6001 6001 (snd sign_failed1)"

definition long_begun :: "reply \<times> server" where
  "long_begun = register_begin this0 (Some long_email) (Some ''Al'') [7] [1, 2, 3] 1000 1000
     empty_server"

definition long_failed :: "reply \<times> server" where
  "long_failed = register_complete this0 sample_parse sample_storage (Some good_credential)
     (Some (register_key long_email 1000)) 2000 2000 (snd long_begun)"

section \<open>Properties of the identity registry\<close>

lemmas reg_eval = run_attempts_def transact_def registerIdentity_def deployed_def zero_Identity_def
  alice_def bob_def carol_def dave_def

lemma inv_deployed: "registry_inv deployed"
  by (simp add: registry_inv_def deployed_def zero_Identity_def active_email_def active_aadhaar_def)

lemma register_Inr:
  assumes "registerIdentity m t n e h s = Inr s'"
  shows "n \<noteq> []" "e \<noteq> []" "h \<noteq> []" "\<not> isActive (identities s m)"
    "\<not> emailExists s e" "\<not> aadhaarExists s h"
    "s' = s\<lparr>identities := (identities s)(m :=
         \<lparr>name = n, email = e, hashedAadhaar = h, ethAddress = m,
          registrationTime = t, isActive = True\<rparr>),
       emailExists := (emailExists s)(e := True),
       aadhaarExists := (aadhaarExists s)(h := True),
       registeredUsers := registeredUsers s @ [m],
       events := events s @ [IdentityRegistered m n e t]\<rparr>"
  using assms by (auto simp: registerIdentity_def split: if_splits)

lemma inv_register:
  assumes inv: "registry_inv s" and ok: "registerIdentity m t n e h s = Inr s'"
  shows "registry_inv s'"
proof -
  note r = register_Inr[OF ok]
  from inv r(5) have ne: "\<And>a. isActive (identities s a) \<Longrightarrow> email (identities s a) \<noteq> e"
    by (auto simp: registry_inv_def active_email_def)
  from inv r(6) have nh: "\<And>a. isActive (identities s a) \<Longrightarrow> hashedAadhaar (identities s a) \<noteq> h"
    by (auto simp: registry_inv_def active_aadhaar_def)
  have 1: "\<forall>x. emailExists s' x = active_email s' x"
    using inv r(4) ne unfolding r(7) registry_inv_def active_email_def
    by simp metis
  have 2: "\<forall>x. aadhaarExists s' x = active_aadhaar s' x"
    using inv r(4) nh unfolding r(7) registry_inv_def active_aadhaar_def
    by simp metis
  have 3: "\<forall>a b. isActive (identities s' a) \<and> isActive (identities s' b) \<and>
        email (identities s' a) = email (identities s' b) \<longrightarrow> a = b"
    using inv ne unfolding r(7) registry_inv_def by (auto)
  have 4: "\<forall>a b. isActive (identities s' a) \<and> isActive (identities s' b) \<and>
        hashedAadhaar (identities s' a) = hashedAadhaar (identities s' b) \<longrightarrow> a = b"
    using inv nh unfolding r(7) registry_inv_def by (auto)
  show ?thesis unfolding registry_inv_def using 1 2 3 4 by blast
qed

lemma inv_transact: "registry_inv s \<Longrightarrow> registry_inv (transact s c)"
  by (auto simp: transact_def split: sum.splits intro: inv_register)

lemma inv_run: "registry_inv s \<Longrightarrow> registry_inv (run_attempts s cs)"
  unfolding run_attempts_def
  by (induction cs arbitrary: s) (simp_all add: inv_transact)

lemma transact_keeps_active:
  "isActive (identities s m) \<Longrightarrow> identities (transact s c) m = identities s m"
  by (auto simp: transact_def registerIdentity_def split: sum.splits if_splits)

lemma run_keeps_active:
  "isActive (identities s m) \<Longrightarrow> identities (run_attempts s cs) m = identities s m"
  unfolding run_attempts_def
  by (induction cs arbitrary: s) (simp_all add: transact_keeps_active)

text \<open>
  Claim C1. After any sequence of registration attempts on a freshly deployed contract,
  no two distinct addresses hold active records with the same email, and no two hold
  active records with the same Aadhaar hash. Whenever \<open>registerIdentity\<close> succeeds in
  such a state, its email and hash were not marked as used and were held by no active
  record before the call, and after the call they are marked and held by the caller's
  active record.
\<close>

theorem registry_uniqueness:
  assumes s: "s = run_attempts deployed cs"
  shows "(\<forall>a b. isActive (identities s a) \<and> isActive (identities s b) \<and>
            email (identities s a) = email (identities s b) \<longrightarrow> a = b) \<and>
         (\<forall>a b. isActive (identities s a) \<and> isActive (identities s b) \<and>
            hashedAadhaar (identities s a) = hashedAadhaar (identities s b) \<longrightarrow> a = b) \<and>
         (\<forall>m t n e h s'. registerIdentity m t n e h s = Inr s' \<longrightarrow>
            \<not> emailExists s e \<and> \<not> aadhaarExists s h \<and>
            \<not> active_email s e \<and> \<not> active_aadhaar s h \<and>
            emailExists s' e \<and> aadhaarExists s' h \<and>
            isActive (identities s' m) \<and> email (identities s' m) = e \<and>
            hashedAadhaar (identities s' m) = h)"
proof -
  have inv: "registry_inv s"
    unfolding s by (rule inv_run[OF inv_deployed])
  have step: "\<not> emailExists s e \<and> \<not> aadhaarExists s h \<and>
      \<not> active_email s e \<and> \<not> active_aadhaar s h \<and>
      emailExists s' e \<and> aadhaarExists s' h \<and>
      isActive (identities s' m) \<and> email (identities s' m) = e \<and>
      hashedAadhaar (identities s' m) = h"
    if ok: "registerIdentity m t n e h s = Inr s'" for m t n e h s'
  proof -
    note r = register_Inr[OF ok]
    from inv r(5) r(6) have "\<not> active_email s e" "\<not> active_aadhaar s h"
      by (simp_all add: registry_inv_def)
    moreover have "emailExists s' e" "aadhaarExists s' h" "isActive (identities s' m)"
      "email (identities s' m) = e" "hashedAadhaar (identities s' m) = h"
      unfolding r(7) by simp_all
    ultimately show ?thesis using r(5) r(6) by simp
  qed
  from inv have "\<forall>a b. isActive (identities s a) \<and> isActive (identities s b) \<and>
            email (identities s a) = email (identities s b) \<longrightarrow> a = b"
    unfolding registry_inv_def by blast
  moreover from inv have "\<forall>a b. isActive (identities s a) \<and> isActive (identities s b) \<and>
            hashedAadhaar (identities s a) = hashedAadhaar (identities s b) \<longrightarrow> a = b"
    unfolding registry_inv_def by blast
  ultimately show ?thesis using step by blast
qed

theorem registry_uniqueness_witness:
  "isActive (identities (run_attempts deployed [alice, bob, carol, dave]) 10) \<and>
   isActive (identities (run_attempts deployed [alice, bob, carol, dave]) 13) \<and>
   email (identities (run_attempts deployed [alice, bob, carol, dave]) 10) \<noteq>
     email (identities (run_attempts deployed [alice, bob, carol, dave]) 13) \<and>
   \<not> isActive (identities (run_attempts deployed [alice, bob, carol, dave]) 11) \<and>
   \<not> isActive (identities (run_attempts deployed [alice, bob, carol, dave]) 12) \<and>
   registerIdentity 13 103 ''dave'' ''d@x.com'' ''H4'' (run_attempts deployed [alice, bob, carol])
     = Inr (run_attempts deployed [alice, bob, carol, dave]) \<and>
   \<not> active_email (run_attempts deployed [alice, bob, carol]) ''d@x.com'' \<and>
   emailExists (run_attempts deployed [alice, bob, carol, dave]) ''d@x.com''"
proof -
  let ?s = "run_attempts deployed [alice, bob, carol, dave]"
  let ?p = "run_attempts deployed [alice, bob, carol]"
  have a: "isActive (identities ?s 10)" and d: "isActive (identities ?s 13)"
    and b: "\<not> isActive (identities ?s 11)" and c: "\<not> isActive (identities ?s 12)"
    by (simp_all add: reg_eval)
  have ok: "registerIdentity 13 103 ''dave'' ''d@x.com'' ''H4'' ?p = Inr ?s"
    by (simp add: reg_eval)
  have ne: "(10 :: address) \<noteq> 13" by simp
  from registry_uniqueness[of ?s "[alice, bob, carol, dave]"] a d ne
  have "email (identities ?s 10) \<noteq> email (identities ?s 13)" by blast
  moreover from registry_uniqueness[of ?p "[alice, bob, carol]"] ok
  have "\<not> active_email ?p ''d@x.com''" "emailExists ?s ''d@x.com''" by blast+
  ultimately show ?thesis using a b c d ok by blast
qed

text \<open>
  Claim C4. In a state reached by registration attempts, \<open>registerIdentity\<close> reverts with
  one of the three emptiness messages when the name, the email or the hash is empty;
  otherwise with "Identity already registered" when the caller has an active record;
  otherwise with "Email already registered" when some active record holds the email;
  otherwise with "Aadhaar already registered" when some active record holds the hash;
  and otherwise it succeeds, stores the caller's record, leaves every other record as it
  was, and appends exactly one event carrying the caller, the name, the email and the
  block timestamp.
\<close>

theorem register_outcomes:
  assumes s: "s = run_attempts deployed cs"
  shows "(n = [] \<or> e = [] \<or> h = [] \<longrightarrow>
            registerIdentity m t n e h s \<in> {Inl Name_cannot_be_empty, Inl Email_cannot_be_empty,
              Inl Hashed_Aadhaar_cannot_be_empty}) \<and>
         (n \<noteq> [] \<and> e \<noteq> [] \<and> h \<noteq> [] \<and> isActive (identities s m) \<longrightarrow>
            registerIdentity m t n e h s = Inl Identity_already_registered) \<and>
         (n \<noteq> [] \<and> e \<noteq> [] \<and> h \<noteq> [] \<and> \<not> isActive (identities s m) \<and> active_email s e \<longrightarrow>
            registerIdentity m t n e h s = Inl Email_already_registered) \<and>
         (n \<noteq> [] \<and> e \<noteq> [] \<and> h \<noteq> [] \<and> \<not> isActive (identities s m) \<and> \<not> active_email s e \<and>
            active_aadhaar s h \<longrightarrow>
            registerIdentity m t n e h s = Inl Aadhaar_already_registered) \<and>
         (n \<noteq> [] \<and> e \<noteq> [] \<and> h \<noteq> [] \<and> \<not> isActive (identities s m) \<and> \<not> active_email s e \<and>
            \<not> active_aadhaar s h \<longrightarrow>
            (\<exists>s'. registerIdentity m t n e h s = Inr s' \<and>
               identities s' m = \<lparr>name = n, email = e, hashedAadhaar = h, ethAddress = m,
                 registrationTime = t, isActive = True\<rparr> \<and>
               (\<forall>a. a \<noteq> m \<longrightarrow> identities s' a = identities s a) \<and>
               registeredUsers s' = registeredUsers s @ [m] \<and>
               events s' = events s @ [IdentityRegistered m n e t]))"
proof -
  have inv: "registry_inv s"
    unfolding s by (rule inv_run[OF inv_deployed])
  then have fl: "emailExists s e = active_email s e" "aadhaarExists s h = active_aadhaar s h"
    by (simp_all add: registry_inv_def)
  show ?thesis
    unfolding registerIdentity_def fl by simp
qed

theorem register_outcomes_witness:
  "registerIdentity 11 7 [] ''b@x.com'' ''H2'' (run_attempts deployed [alice])
     \<in> {Inl Name_cannot_be_empty, Inl Email_cannot_be_empty, Inl Hashed_Aadhaar_cannot_be_empty} \<and>
   registerIdentity 10 7 ''al'' ''b@x.com'' ''H2'' (run_attempts deployed [alice])
     = Inl Identity_already_registered \<and>
   registerIdentity 11 7 ''bob'' ''a@x.com'' ''H2'' (run_attempts deployed [alice])
     = Inl Email_already_registered \<and>
   registerIdentity 11 7 ''bob'' ''b@x.com'' ''H1'' (run_attempts deployed [alice])
     = Inl Aadhaar_already_registered \<and>
   (\<exists>s'. registerIdentity 11 7 ''bob'' ''b@x.com'' ''H2'' (run_attempts deployed [alice]) = Inr s' \<and>
      events s' = [IdentityRegistered 10 ''alice'' ''a@x.com'' 100,
                   IdentityRegistered 11 ''bob'' ''b@x.com'' 7])"
proof -
  let ?s = "run_attempts deployed [alice]"
  have act: "isActive (identities ?s 10)" "\<not> isActive (identities ?s 11)"
    and em: "email (identities ?s 10) = ''a@x.com''"
    and ha: "hashedAadhaar (identities ?s 10) = ''H1''"
    and ev: "events ?s = [IdentityRegistered 10 ''alice'' ''a@x.com'' 100]"
    by (simp_all add: reg_eval)
  have ids: "identities ?s a = (if a = 10 then identities ?s 10 else zero_Identity)" for a
    by (simp add: reg_eval)
  have ae: "active_email ?s ''a@x.com''" "active_aadhaar ?s ''H1''"
    unfolding active_email_def active_aadhaar_def using act(1) em ha by blast+
  have nae: "\<not> active_email ?s ''b@x.com''" "\<not> active_aadhaar ?s ''H2''"
    unfolding active_email_def active_aadhaar_def
    by (subst ids, simp add: em ha zero_Identity_def)+
  have 1: "registerIdentity 11 7 [] ''b@x.com'' ''H2'' ?s
     \<in> {Inl Name_cannot_be_empty, Inl Email_cannot_be_empty, Inl Hashed_Aadhaar_cannot_be_empty}"
    using register_outcomes[of ?s "[alice]" "[]" "''b@x.com''" "''H2''" 11 7] by simp
  have 2: "registerIdentity 10 7 ''al'' ''b@x.com'' ''H2'' ?s = Inl Identity_already_registered"
    using register_outcomes[of ?s "[alice]" "''al''" "''b@x.com''" "''H2''" 10 7] act by simp
  have 3: "registerIdentity 11 7 ''bob'' ''a@x.com'' ''H2'' ?s = Inl Email_already_registered"
    using register_outcomes[of ?s "[alice]" "''bob''" "''a@x.com''" "''H2''" 11 7] act ae by simp
  have 4: "registerIdentity 11 7 ''bob'' ''b@x.com'' ''H1'' ?s = Inl Aadhaar_already_registered"
    using register_outcomes[of ?s "[alice]" "''bob''" "''b@x.com''" "''H1''" 11 7] act ae nae by simp
  have 5: "\<exists>s'. registerIdentity 11 7 ''bob'' ''b@x.com'' ''H2'' ?s = Inr s' \<and>
      events s' = [IdentityRegistered 10 ''alice'' ''a@x.com'' 100,
                   IdentityRegistered 11 ''bob'' ''b@x.com'' 7]"
    using register_outcomes[of ?s "[alice]" "''bob''" "''b@x.com''" "''H2''" 11 7] act nae ev
    by auto
  show ?thesis using 1 2 3 4 5 by blast
qed

text \<open>
  Claim C5. After a successful \<open>registerIdentity\<close>, and after any further registration
  attempts by anyone, \<open>getIdentity\<close> of the sender returns the registered name, email and
  hash with the active flag set, and \<open>isRegistered\<close> returns true. The sender of a
  transaction is the account that signed it or the contract that made the call, which is
  never the zero address: that is the hypothesis on \<open>m\<close>.
\<close>

theorem register_then_get:
  assumes ok: "registerIdentity m t n e h s = Inr s'"
    and nz: "m \<noteq> 0"
    and later: "s'' = run_attempts s' cs"
  shows "getIdentity m s'' = Inr \<lparr>name = n, email = e, hashedAadhaar = h, ethAddress = m,
           registrationTime = t, isActive = True\<rparr> \<and>
         isRegistered m s'' = Inr True"
proof -
  note r = register_Inr[OF ok]
  have now: "identities s' m = \<lparr>name = n, email = e, hashedAadhaar = h, ethAddress = m,
           registrationTime = t, isActive = True\<rparr>"
    unfolding r(7) by simp
  then have "isActive (identities s' m)" by simp
  then have "identities s'' m = identities s' m"
    unfolding later by (rule run_keeps_active)
  with now nz show ?thesis
    by (simp add: getIdentity_def isRegistered_def)
qed

theorem register_then_get_witness:
  "registerIdentity 10 100 ''alice'' ''a@x.com'' ''H1'' deployed = Inr (run_attempts deployed [alice]) \<and>
   (10 :: address) \<noteq> 0 \<and>
   getIdentity 10 (run_attempts (run_attempts deployed [alice]) [bob, carol, dave, alice]) =
     Inr \<lparr>name = ''alice'', email = ''a@x.com'', hashedAadhaar = ''H1'', ethAddress = 10,
           registrationTime = 100, isActive = True\<rparr> \<and>
   isRegistered 10 (run_attempts (run_attempts deployed [alice]) [bob, carol, dave, alice]) = Inr True"
proof -
  have ok: "registerIdentity 10 100 ''alice'' ''a@x.com'' ''H1'' deployed
      = Inr (run_attempts deployed [alice])"
    by (simp add: reg_eval)
  have nz: "(10 :: address) \<noteq> 0" by simp
  from register_then_get[OF ok nz refl, of "[bob, carol, dave, alice]"] ok nz
  show ?thesis by blast
qed

text \<open>
  Claim C8, as amended. \<open>isRegistered\<close> reverts with "Invalid address" on the zero
  address; on every other address it returns, without reverting, whether the record
  stored for that address is active.
\<close>

theorem isRegistered_total_except_zero:
  "isRegistered a s = (if a = 0 then Inl Invalid_address else Inr (isActive (identities s a)))"
  by (simp add: isRegistered_def)

text \<open>Claim C8 as stated fails at the zero address: the call reverts.\<close>

theorem isRegistered_zero_reverts:
  "isRegistered 0 (run_attempts deployed [alice]) = Inl Invalid_address"
  by (simp add: isRegistered_def)

section \<open>Properties of the Base64 helpers\<close>

lemma group3:
  fixes a b c :: nat
  assumes "a < 256" "b < 256" "c < 256"
  shows "a div 4 < 64" "(a mod 4) * 16 + b div 16 < 64" "(b mod 16) * 4 + c div 64 < 64"
    and "(a div 4) * 4 + ((a mod 4) * 16 + b div 16) div 16 = a"
    and "(((a mod 4) * 16 + b div 16) mod 16) * 16 + ((b mod 16) * 4 + c div 64) div 4 = b"
    and "(((b mod 16) * 4 + c div 64) mod 4) * 64 + c mod 64 = c"
proof -
  have b16: "b div 16 < 16" and c64: "c div 64 < 4"
    using assms by simp_all
  have am: "a mod 4 < 4" and bm: "b mod 16 < 16" by simp_all
  show "a div 4 < 64" using assms by simp
  show "(a mod 4) * 16 + b div 16 < 64" using am b16 by linarith
  show "(b mod 16) * 4 + c div 64 < 64" using bm c64 by linarith
  show "(a div 4) * 4 + ((a mod 4) * 16 + b div 16) div 16 = a"
    using b16 by simp
  show "(((a mod 4) * 16 + b div 16) mod 16) * 16 + ((b mod 16) * 4 + c div 64) div 4 = b"
    using b16 c64 by simp
  show "(((b mod 16) * 4 + c div 64) mod 4) * 64 + c mod 64 = c"
    using c64 by simp
qed

lemma table_distinct: "distinct base64_table"
  by (simp add: base64_table_def)

lemma table_length: "length base64_table = 64"
  by (simp add: base64_table_def)

lemma table_special:
  "CHR ''='' \<notin> set base64_table" "CHR ''-'' \<notin> set base64_table" "CHR ''_'' \<notin> set base64_table"
  by (simp_all add: base64_table_def)

lemma index_of_nth: "distinct xs \<Longrightarrow> k < length xs \<Longrightarrow> index_of (xs ! k) xs = Some k"
proof (induction xs arbitrary: k)
  case Nil
  then show ?case by simp
next
  case (Cons x xs)
  show ?case
  proof (cases k)
    case 0
    then show ?thesis by simp
  next
    case (Suc j)
    with Cons.prems have "j < length xs" "xs ! j \<noteq> x" by auto
    with Cons Suc show ?thesis by simp
  qed
qed

lemma b64_in_table: "b64 k \<in> set base64_table"
  unfolding b64_def by (rule nth_mem) (simp add: table_length)

lemma b64_special: "b64 k \<noteq> CHR ''=''" "b64 k \<noteq> CHR ''-''" "b64 k \<noteq> CHR ''_''"
  using b64_in_table[of k] table_special by metis+

lemma unbase64_b64: "unbase64 (b64 k) = Some (k mod 64)"
proof -
  have "index_of (base64_table ! (k mod 64)) base64_table = Some (k mod 64)"
    by (rule index_of_nth[OF table_distinct]) (simp add: table_length)
  then show ?thesis
    using b64_special[of k] by (simp add: unbase64_def b64_def)
qed

lemma byte_bound: "unat (a :: byte) < 256"
  using unsigned_less[of a, where ?'a = nat] by simp

lemma unbase64_sextet: "k < 64 \<Longrightarrow> unbase64 (b64 k) = Some k"
  by (simp add: unbase64_b64)

text \<open>The characters of an encoding are characters of the table or the padding sign.\<close>

lemma toString_base64_chars:
  "c \<in> set (toString_base64 bs) \<Longrightarrow> c \<in> set base64_table \<or> c = CHR ''=''"
  by (induction bs rule: toString_base64.induct) (auto simp: b64_in_table)

lemma replace_all_char: "replace_all c [r] s = map (\<lambda>x. if x = c then r else x) s"
  by (induction s) (simp_all add: replace_all_def)

lemma replace_all_remove: "replace_all c [] s = filter (\<lambda>x. x \<noteq> c) s"
  by (induction s) (simp_all add: replace_all_def)

text \<open>Stripped of its padding, an encoding decodes to the bytes it came from.\<close>

lemma decode_stripped:
  "decode_sextets (List.map_filter unbase64
      (filter (\<lambda>c. c \<noteq> CHR ''='') (toString_base64 bs))) = bs"
proof (induction bs rule: toString_base64.induct)
  case (1 a b c rest)
  define s0 where "s0 = unat a div 4"
  define s1 where "s1 = (unat a mod 4) * 16 + unat b div 16"
  define s2 where "s2 = (unat b mod 16) * 4 + unat c div 64"
  define s3 where "s3 = unat c mod 64"
  note g = group3[OF byte_bound[of a] byte_bound[of b] byte_bound[of c]]
  have lt: "s0 < 64" "s1 < 64" "s2 < 64" "s3 < 64"
    unfolding s0_def s1_def s2_def s3_def using g(1,2,3) by simp_all
  have bytes: "(of_nat (s0 * 4 + s1 div 16) :: byte) = a"
    "(of_nat ((s1 mod 16) * 16 + s2 div 4) :: byte) = b"
    "(of_nat ((s2 mod 4) * 64 + s3) :: byte) = c"
    unfolding s0_def s1_def s2_def s3_def by (simp_all only: g of_nat_unat unsigned_eq_0_iff ucast_id)
  have enc: "toString_base64 (a # b # c # rest)
      = [b64 s0, b64 s1, b64 s2, b64 s3] @ toString_base64 rest"
    by (simp add: s0_def s1_def s2_def s3_def)
  have sx: "List.map_filter unbase64 (filter (\<lambda>c. c \<noteq> CHR ''='')
        ([b64 s0, b64 s1, b64 s2, b64 s3] @ xs))
      = s0 # s1 # s2 # s3 # List.map_filter unbase64 (filter (\<lambda>c. c \<noteq> CHR ''='') xs)" for xs
    by (simp add: List.map_filter_simps b64_special unbase64_sextet lt)
  show ?case
    unfolding enc sx by (simp only: decode_sextets.simps bytes "1.IH" append.simps)
next
  case (2 a b)
  define s0 where "s0 = unat a div 4"
  define s1 where "s1 = (unat a mod 4) * 16 + unat b div 16"
  define s2 where "s2 = (unat b mod 16) * 4 + unat (0 :: byte) div 64"
  have zero: "unat (0 :: byte) < 256" by simp
  note g = group3[OF byte_bound[of a] byte_bound[of b] zero]
  have lt: "s0 < 64" "s1 < 64" "s2 < 64"
    unfolding s0_def s1_def s2_def using g(1,2,3) by simp_all
  have bytes: "(of_nat (s0 * 4 + s1 div 16) :: byte) = a"
    "(of_nat ((s1 mod 16) * 16 + s2 div 4) :: byte) = b"
    unfolding s0_def s1_def s2_def by (simp_all only: g of_nat_unat ucast_id)
  have enc: "toString_base64 [a, b] = [b64 s0, b64 s1, b64 s2, CHR ''='']"
    by (simp add: s0_def s1_def s2_def)
  have sx: "List.map_filter unbase64 (filter (\<lambda>c. c \<noteq> CHR ''='')
        [b64 s0, b64 s1, b64 s2, CHR ''='']) = [s0, s1, s2]"
    by (simp add: List.map_filter_simps b64_special unbase64_sextet lt)
  show ?case
    unfolding enc sx by (simp only: decode_sextets.simps bytes)
next
  case (3 a)
  define s0 where "s0 = unat a div 4"
  define s1 where "s1 = (unat a mod 4) * 16 + unat (0 :: byte) div 16"
  have zero: "unat (0 :: byte) < 256" by simp
  note g = group3[OF byte_bound[of a] zero zero]
  have lt: "s0 < 64" "s1 < 64"
    unfolding s0_def s1_def using g(1,2) by simp_all
  have bytes: "(of_nat (s0 * 4 + s1 div 16) :: byte) = a"
    unfolding s0_def s1_def by (simp_all only: g of_nat_unat ucast_id)
  have enc: "toString_base64 [a] = [b64 s0, b64 s1, CHR ''='', CHR ''='']"
    by (simp add: s0_def s1_def)
  have sx: "List.map_filter unbase64 (filter (\<lambda>c. c \<noteq> CHR ''='')
        [b64 s0, b64 s1, CHR ''='', CHR ''='']) = [s0, s1]"
    by (simp add: List.map_filter_simps b64_special unbase64_sextet lt)
  show ?case
    unfolding enc sx by (simp only: decode_sextets.simps bytes)
next
  case 4
  show ?case by (simp add: List.map_filter_simps)
qed

text \<open>Undoing the two character replacements gives back the unpadded standard encoding.\<close>

lemma unreplace_stripped:
  "replace_all CHR ''_'' ''/'' (replace_all CHR ''-'' ''+'' (bufferToBase64URL bs))
     = filter (\<lambda>c. c \<noteq> CHR ''='') (toString_base64 bs)"
proof -
  have "map (\<lambda>x. if x = CHR ''_'' then CHR ''/'' else x)
          (map (\<lambda>x. if x = CHR ''-'' then CHR ''+'' else x)
            (filter (\<lambda>x. x \<noteq> CHR ''='')
              (map (\<lambda>x. if x = CHR ''/'' then CHR ''_'' else x)
                (map (\<lambda>x. if x = CHR ''+'' then CHR ''-'' else x) xs))))
        = filter (\<lambda>c. c \<noteq> CHR ''='') xs"
    if "\<And>c. c \<in> set xs \<Longrightarrow> c \<noteq> CHR ''-'' \<and> c \<noteq> CHR ''_''" for xs
    using that by (induction xs) auto
  moreover have "c \<noteq> CHR ''-'' \<and> c \<noteq> CHR ''_''" if "c \<in> set (toString_base64 bs)" for c
    using toString_base64_chars[OF that] table_special by auto
  ultimately show ?thesis
    by (simp add: bufferToBase64URL_def replace_all_char replace_all_remove)
qed

lemma takeWhile_pad:
  "CHR ''='' \<notin> set xs \<Longrightarrow> takeWhile (\<lambda>c. c \<noteq> CHR ''='') (xs @ replicate k CHR ''='') = xs"
  by (induction xs) (auto simp: takeWhile_replicate)

text \<open>
  Claim C10. \<open>base64URLToBuffer\<close> is a left inverse of \<open>bufferToBase64URL\<close>: for every
  sequence of bytes, encoding it (which removes all padding) and decoding the result
  (which appends padding computed from the length) gives the bytes back.
\<close>

theorem base64url_roundtrip: "base64URLToBuffer (bufferToBase64URL b) = b"
proof -
  let ?body = "filter (\<lambda>c. c \<noteq> CHR ''='') (toString_base64 b)"
  have "takeWhile (\<lambda>c. c \<noteq> CHR ''='') (?body @ replicate k CHR ''='') = ?body" for k
    by (rule takeWhile_pad) simp
  then have "from_base64 (?body @ replicate k CHR ''='') = b" for k
    unfolding from_base64_def by (simp only: decode_stripped)
  then show ?thesis
    by (simp add: base64URLToBuffer_def unreplace_stripped Let_def)
qed

text \<open>
  The padding that \<open>base64URLToBuffer\<close> appends is the padding that was removed, and
  the helper computes the runtime's own \<open>base64url\<close> encoding.
\<close>

lemma repadded_is_base64:
  "filter (\<lambda>c. c \<noteq> CHR ''='') (toString_base64 bs)
     @ replicate ((4 - length (filter (\<lambda>c. c \<noteq> CHR ''='') (toString_base64 bs)) mod 4) mod 4) CHR ''=''
   = toString_base64 bs"
proof (induction bs rule: toString_base64.induct)
  case (1 a b c rest)
  then show ?case by (simp add: b64_special)
next
  case (2 a b)
  show ?case by (simp add: b64_special)
next
  case (3 a)
  have "replicate 2 CHR ''='' = ''==''" by (simp add: numeral_2_eq_2)
  then show ?case by (simp add: b64_special)
next
  case 4
  show ?case by simp
qed

lemma bufferToBase64URL_native: "bufferToBase64URL bs = toString_base64url bs"
proof -
  have "(\<lambda>x. if x = CHR ''/'' then CHR ''_'' else x) \<circ> (\<lambda>x. if x = CHR ''+'' then CHR ''-'' else x)
      = (\<lambda>c. if c = CHR ''+'' then CHR ''-'' else if c = CHR ''/'' then CHR ''_'' else c)"
    by (auto simp: fun_eq_iff)
  then show ?thesis
    by (simp add: bufferToBase64URL_def toString_base64url_def replace_all_char replace_all_remove)
qed

section \<open>Properties of the ceremony routes\<close>

text \<open>What the two complete handlers do once the request has both fields.\<close>

lemma register_complete_found:
  assumes "challenges s key = Some d" "key \<noteq> []"
  shows "register_complete this jp ok (Some c) (Some key) now now2 s =
    (if now > expires d
     then (Error_reply 400 ''Challenge expired'', s\<lparr>challenges := (challenges s)(key := None)\<rparr>)
     else (case verifyRegistrationCredential this jp (Some c) (challenge d) of
        Inl err \<Rightarrow>
          (Error_reply 400 (if err = [] then ''Registration verification failed'' else err),
           s\<lparr>challenges := (challenges s)(key := None)\<rparr>)
      | Inr verification \<Rightarrow>
          if \<not> ok (localStorage s) (''webauthn_'' @ ch_email d)
               \<lparr>credentialId = rv_credentialId verification,
                publicKey = rv_publicKey verification,
                counter = rv_counter verification,
                sc_email = ch_email d,
                sc_name = ch_name d,
                registeredAt = now2\<rparr>
          then (Error_reply 500 ''Failed to complete registration'', s)
          else
          (Registration_completed,
           s\<lparr>localStorage := (localStorage s)(''webauthn_'' @ ch_email d \<mapsto>
               \<lparr>credentialId = rv_credentialId verification,
                publicKey = rv_publicKey verification,
                counter = rv_counter verification,
                sc_email = ch_email d,
                sc_name = ch_name d,
                registeredAt = now2\<rparr>),
             challenges := (challenges s)(key := None)\<rparr>)))"
  using assms by (auto simp: register_complete_def Let_def split: sum.splits)

lemma login_complete_found:
  assumes "challenges s key = Some d" "key \<noteq> []"
  shows "login_complete this jp sign ok (Some c) (Some key) now now2 s =
    (if now > expires d
     then (Error_reply 400 ''Challenge expired'', s\<lparr>challenges := (challenges s)(key := None)\<rparr>)
     else (case localStorage s (''webauthn_'' @ ch_email d) of
        None \<Rightarrow>
          (Error_reply 404 ''Stored credential not found'',
           s\<lparr>challenges := (challenges s)(key := None)\<rparr>)
      | Some storedCredential \<Rightarrow>
         (case verifyAuthenticationCredential this jp (Some c) (challenge d) storedCredential of
            Inl err \<Rightarrow>
              (Error_reply 401 (if err = [] then ''Authentication verification failed'' else err),
               s\<lparr>challenges := (challenges s)(key := None)\<rparr>)
          | Inr new_counter \<Rightarrow>
             if \<not> ok (localStorage s) (''webauthn_'' @ ch_email d)
                  (storedCredential\<lparr>counter := new_counter\<rparr>)
             then (Error_reply 500 ''Failed to complete authentication'', s)
             else
             (let s1 = s\<lparr>localStorage := (localStorage s)(''webauthn_'' @ ch_email d \<mapsto>
                      storedCredential\<lparr>counter := new_counter\<rparr>)\<rparr>
              in case sign \<lparr>tp_email = ch_email d, tp_name = sc_name storedCredential,
                            authenticatedAt = now2, authMethod = ''webauthn''\<rparr> of
                   None \<Rightarrow> (Error_reply 500 ''Failed to complete authentication'', s1)
                 | Some token \<Rightarrow>
                     (Authenticated token (ch_email d) (sc_name storedCredential),
                      s1\<lparr>challenges := (challenges s1)(key := None)\<rparr>)))))"
  using assms by (simp add: login_complete_def)

lemma complete_absent:
  assumes "challenges s key = None" "key \<noteq> []"
  shows "register_complete this jp ok (Some c) (Some key) now now2 s
           = (Error_reply 400 ''Invalid or expired challenge'', s)"
    and "login_complete this jp sign ok (Some c) (Some key) now now2 s
           = (Error_reply 400 ''Invalid or expired challenge'', s)"
  using assms by (simp_all add: register_complete_def login_complete_def)

text \<open>
  Every answer of a complete handler that found the challenge, other than the 500 of its
  \<open>catch\<close>, comes with the entry deleted; the 500 comes with the entry kept.
\<close>

lemma register_complete_consumes:
  assumes found: "challenges s key = Some d" and key: "key \<noteq> []"
    and run: "register_complete this jp ok (Some c) (Some key) now now2 s = (r, s')"
  shows "challenges s' key = (if r = Error_reply 500 ''Failed to complete registration''
           then Some d else None)"
  using run found unfolding register_complete_found[OF found key]
  by (auto split: if_splits sum.splits)

lemma login_complete_consumes:
  assumes found: "challenges s key = Some d" and key: "key \<noteq> []"
    and run: "login_complete this jp sign ok (Some c) (Some key) now now2 s = (r, s')"
  shows "challenges s' key = (if r = Error_reply 500 ''Failed to complete authentication''
           then Some d else None)"
  using run found unfolding login_complete_found[OF found key]
  by (auto simp: Let_def split: if_splits sum.splits option.splits)

lemma js_add_one_exact: "n < 2 ^ 53 \<Longrightarrow> js_add_one n = n + 1"
  by (simp add: js_add_one_def)

lemma js_add_one_ge: "n \<le> js_add_one n"
  by (simp add: js_add_one_def)

lemma js_add_one_at_limit: "js_add_one (2 ^ 53) = 2 ^ 53"
  by (simp add: js_add_one_def)

lemma verified_counter:
  "verifyAuthenticationCredential this jp cr ch sc = Inr n \<Longrightarrow> n = js_add_one (counter sc)"
  by (auto simp: verifyAuthenticationCredential_def split: option.splits if_splits sum.splits)

lemma cleanup_removes:
  "challenges s key = Some d \<Longrightarrow> now > expires d
     \<Longrightarrow> challenges (cleanupExpiredChallenges now s) key = None"
  by (simp add: cleanupExpiredChallenges_def)

subsection \<open>The sample run, evaluated\<close>

lemmas b64_eval = toString_base64url_def b64_def base64_table_def base64URLToBuffer_def
  from_base64_def unbase64_def replace_all_def List.map_filter_def

lemma dec_sample: "dec 1000 = ''1000''" "dec 5000 = ''5000''"
  by (simp_all add: dec.simps)

lemma email_sample: "emailRegex_test ''a@x.com''"
  by (simp add: emailRegex_test_def is_space_def)

lemma encode_sample:
  "toString_base64url [1, 2, 3] = ''AQID''" "toString_base64url [4, 5, 6] = ''BAUG''"
  by (simp_all add: b64_eval)

lemma decode_sample: "base64URLToBuffer ''AQ'' = [1]" "base64URLToBuffer ''Ag'' = [2]"
  by (simp_all add: b64_eval)

lemma begun1_eval:
  "begun1 = (Registration_begun (generateRegistrationOptions this0 [7] [1, 2, 3] ''a@x.com'' ''Al'')
       ''challenge_a@x.com_1000'',
     \<lparr>challenges = [''challenge_a@x.com_1000'' \<mapsto>
        \<lparr>challenge = ''AQID'', ch_email = ''a@x.com'', ch_name = Some ''Al'', expires = 301000\<rparr>],
      localStorage = Map.empty\<rparr>)"
  by (simp add: begun1_def register_begin_def email_sample empty_server_def register_key_def
      dec_sample generateRegistrationOptions_def encode_sample Let_def)

lemma begun2_eval:
  "begun2 = (Registration_begun (generateRegistrationOptions this0 [8] [4, 5, 6] ''a@x.com'' ''Al'')
       ''challenge_a@x.com_1000'',
     \<lparr>challenges = [''challenge_a@x.com_1000'' \<mapsto>
        \<lparr>challenge = ''BAUG'', ch_email = ''a@x.com'', ch_name = Some ''Al'', expires = 301000\<rparr>],
      localStorage = Map.empty\<rparr>)"
  by (simp add: begun2_def begun1_eval register_begin_def email_sample register_key_def
      dec_sample generateRegistrationOptions_def encode_sample Let_def)

lemma verify_good_registration:
  "verifyRegistrationCredential this0 sample_parse (Some good_credential) ''AQID''
     = Inr \<lparr>rv_credentialId = ''cred-1'', rv_publicKey = Some ''o2M'', rv_counter = 0\<rparr>"
  by (simp add: verifyRegistrationCredential_def good_credential_def decode_sample
      sample_parse_def this0_def)

lemma verify_foreign_registration:
  "verifyRegistrationCredential this0 sample_parse (Some foreign_credential) ''AQID''
     = Inl ''Origin mismatch''"
  by (simp add: verifyRegistrationCredential_def foreign_credential_def decode_sample
      sample_parse_def this0_def)

lemma sample_storage_short: "sample_storage store ''webauthn_a@x.com'' data"
  by (simp add: sample_storage_def)

lemma registered1_eval:
  "registered1 = (Registration_completed,
     \<lparr>challenges = Map.empty,
      localStorage = [''webauthn_a@x.com'' \<mapsto>
        \<lparr>credentialId = ''cred-1'', publicKey = Some ''o2M'', counter = 0,
         sc_email = ''a@x.com'', sc_name = Some ''Al'', registeredAt = 2000\<rparr>]\<rparr>)"
  by (simp add: registered1_def begun1_eval register_complete_def verify_good_registration
      sample_storage_short Let_def)

lemma login_begun1_eval:
  "login_begun1 = (Authentication_begun (generateAuthenticationOptions this0 [1, 2, 3] [''cred-1''])
       ''auth_challenge_a@x.com_5000'',
     \<lparr>challenges = [''auth_challenge_a@x.com_5000'' \<mapsto>
        \<lparr>challenge = ''AQID'', ch_email = ''a@x.com'', ch_name = None, expires = 305000\<rparr>],
      localStorage = [''webauthn_a@x.com'' \<mapsto>
        \<lparr>credentialId = ''cred-1'', publicKey = Some ''o2M'', counter = 0,
         sc_email = ''a@x.com'', sc_name = Some ''Al'', registeredAt = 2000\<rparr>]\<rparr>)"
  by (simp add: login_begun1_def registered1_eval login_begin_def email_sample login_key_def
      dec_sample generateAuthenticationOptions_def encode_sample Let_def)

lemma verify_good_authentication:
  "verifyAuthenticationCredential this0 sample_parse (Some good_credential) ''AQID''
     \<lparr>credentialId = ''cred-1'', publicKey = Some ''o2M'', counter = n,
      sc_email = ''a@x.com'', sc_name = Some ''Al'', registeredAt = 2000\<rparr>
   = Inr (js_add_one n)"
  by (simp add: verifyAuthenticationCredential_def good_credential_def decode_sample
      sample_parse_def this0_def)

lemma js_add_one_sample: "js_add_one 0 = 1" "js_add_one 1 = 2" "js_add_one (Suc 0) = 2"
  by (simp_all add: js_add_one_def)

lemma logged_in1_eval:
  "logged_in1 = (Authenticated ''token-for-a@x.com'' ''a@x.com'' (Some ''Al''),
     \<lparr>challenges = Map.empty,
      localStorage = [''webauthn_a@x.com'' \<mapsto>
        \<lparr>credentialId = ''cred-1'', publicKey = Some ''o2M'', counter = 1,
         sc_email = ''a@x.com'', sc_name = Some ''Al'', registeredAt = 2000\<rparr>]\<rparr>)"
  by (simp add: logged_in1_def login_begun1_eval login_complete_def verify_good_authentication
      sample_sign_def sample_storage_short js_add_one_sample Let_def)

text \<open>The same login with a signer that raises, twice.\<close>

lemma sign_failed1_eval:
  "sign_failed1 = (Error_reply 500 ''Failed to complete authentication'',
     \<lparr>challenges = [''auth_challenge_a@x.com_5000'' \<mapsto>
        \<lparr>challenge = ''AQID'', ch_email = ''a@x.com'', ch_name = None, expires = 305000\<rparr>],
      localStorage = [''webauthn_a@x.com'' \<mapsto>
        \<lparr>credentialId = ''cred-1'', publicKey = Some ''o2M'', counter = 1,
         sc_email = ''a@x.com'', sc_name = Some ''Al'', registeredAt = 2000\<rparr>]\<rparr>)"
  by (simp add: sign_failed1_def login_begun1_eval login_complete_def verify_good_authentication
      failing_sign_def sample_storage_short js_add_one_sample Let_def)

lemma sign_failed2_eval:
  "sign_failed2 = (Error_reply 500 ''Failed to complete authentication'',
     \<lparr>challenges = [''auth_challenge_a@x.com_5000'' \<mapsto>
        \<lparr>challenge = ''AQID'', ch_email = ''a@x.com'', ch_name = None, expires = 305000\<rparr>],
      localStorage = [''webauthn_a@x.com'' \<mapsto>
        \<lparr>credentialId = ''cred-1'', publicKey = Some ''o2M'', counter = 2,
         sc_email = ''a@x.com'', sc_name = Some ''Al'', registeredAt = 2000\<rparr>]\<rparr>)"
  by (simp add: sign_failed2_def sign_failed1_eval login_complete_def verify_good_authentication
      failing_sign_def sample_storage_short js_add_one_sample Let_def)

lemma login_after_sign_failed:
  "login_complete this0 sample_parse sample_sign sample_storage (Some good_credential)
     (Some ''auth_challenge_a@x.com_5000'') 6001 6001 (snd sign_failed1)
   = (Authenticated ''token-for-a@x.com'' ''a@x.com'' (Some ''Al''),
     \<lparr>challenges = Map.empty,
      localStorage = [''webauthn_a@x.com'' \<mapsto>
        \<lparr>credentialId = ''cred-1'', publicKey = Some ''o2M'', counter = 2,
         sc_email = ''a@x.com'', sc_name = Some ''Al'', registeredAt = 2000\<rparr>]\<rparr>)"
  by (simp add: sign_failed1_eval login_complete_def verify_good_authentication
      sample_sign_def sample_storage_short js_add_one_sample Let_def)

text \<open>A registration for an email of 256 characters, whose storage key is too long.\<close>

lemma long_email_length: "length long_email = 256" "long_email \<noteq> []"
  by (simp_all add: long_email_def)

lemma long_email_ok: "emailRegex_test long_email"
proof -
  have a: "\<And>c. c \<in> set (replicate 250 CHR ''a'') \<Longrightarrow> c \<noteq> CHR ''@''"
    by simp
  have tw: "takeWhile (\<lambda>c. c \<noteq> CHR ''@'') long_email = replicate 250 CHR ''a''"
    unfolding long_email_def by (subst takeWhile_append2[OF a]) simp_all
  have dw: "dropWhile (\<lambda>c. c \<noteq> CHR ''@'') long_email = ''@x.com''"
    unfolding long_email_def by (subst dropWhile_append2[OF a]) simp_all
  show ?thesis
    unfolding emailRegex_test_def tw dw
    by (simp add: is_space_def list_all_iff)
qed

lemma long_begun_eval:
  "long_begun = (Registration_begun (generateRegistrationOptions this0 [7] [1, 2, 3] long_email ''Al'')
       (register_key long_email 1000),
     \<lparr>challenges = [register_key long_email 1000 \<mapsto>
        \<lparr>challenge = ''AQID'', ch_email = long_email, ch_name = Some ''Al'', expires = 301000\<rparr>],
      localStorage = Map.empty\<rparr>)"
  by (simp add: long_begun_def register_begin_def long_email_ok long_email_length empty_server_def
      generateRegistrationOptions_def encode_sample Let_def)

lemma long_failed_eval:
  "long_failed = (Error_reply 500 ''Failed to complete registration'', snd long_begun)"
proof -
  let ?d = "\<lparr>challenge = ''AQID'', ch_email = long_email, ch_name = Some ''Al'', expires = 301000\<rparr>"
  have found: "challenges (snd long_begun) (register_key long_email 1000) = Some ?d"
    by (simp add: long_begun_eval)
  have key: "register_key long_email 1000 \<noteq> []"
    by (simp add: register_key_def)
  show ?thesis
    unfolding long_failed_def register_complete_found[OF found key]
    by (simp add: verify_good_registration sample_storage_def long_email_length)
qed

subsection \<open>Challenge keys\<close>

lemma digits_distinct: "distinct ''0123456789''"
  by simp

lemma digit_not_underscore: "k < 10 \<Longrightarrow> ''0123456789'' ! k \<noteq> CHR ''_''"
proof -
  assume "k < 10"
  then have "''0123456789'' ! k \<in> set ''0123456789''"
    by (intro nth_mem) simp
  then show ?thesis by auto
qed

lemma digit_inj:
  assumes "a < 10" "b < 10" "''0123456789'' ! a = ''0123456789'' ! b"
  shows "a = b"
  using assms digits_distinct by (simp add: nth_eq_iff_index_eq)

lemma dec_nonempty: "dec n \<noteq> []"
  by (subst dec.simps) simp

lemma dec_no_underscore: "CHR ''_'' \<notin> set (dec n)"
proof (induction n rule: dec.induct)
  case (1 n)
  show ?case
  proof (cases "n < 10")
    case True
    then show ?thesis
      using digit_not_underscore[of n] by (subst dec.simps) auto
  next
    case False
    have "n mod 10 < 10" by simp
    then show ?thesis
      using False 1 digit_not_underscore[of "n mod 10"] by (subst dec.simps) auto
  qed
qed

lemma dec_inj: "dec m = dec n \<Longrightarrow> m = n"
proof (induction m arbitrary: n rule: dec.induct)
  case (1 m)
  have dm: "dec m = (if m < 10 then [''0123456789'' ! m]
      else dec (m div 10) @ [''0123456789'' ! (m mod 10)])"
    by (rule dec.simps)
  have dn: "dec n = (if n < 10 then [''0123456789'' ! n]
      else dec (n div 10) @ [''0123456789'' ! (n mod 10)])"
    by (rule dec.simps)
  show ?case
  proof (cases "m < 10")
    case m: True
    show ?thesis
    proof (cases "n < 10")
      case True
      with m "1.prems" dm dn show ?thesis by (simp add: digit_inj)
    next
      case False
      with m "1.prems" dm dn dec_nonempty[of "n div 10"] show ?thesis by simp
    qed
  next
    case m: False
    show ?thesis
    proof (cases "n < 10")
      case True
      with m "1.prems" dm dn dec_nonempty[of "m div 10"] show ?thesis
        by (metis append_is_Nil_conv butlast.simps(2) butlast_snoc)
    next
      case False
      with m "1.prems" dm dn have eq: "dec (m div 10) = dec (n div 10)"
        "''0123456789'' ! (m mod 10) = ''0123456789'' ! (n mod 10)" by simp_all
      from "1.IH"[OF m eq(1)] have "m div 10 = n div 10" .
      moreover from eq(2) have "m mod 10 = n mod 10"
        by (intro digit_inj) simp_all
      ultimately show ?thesis by (metis div_mult_mod_eq)
    qed
  qed
qed

text \<open>Two strings that agree after their last underscore-free suffix are split alike.\<close>

lemma split_last_underscore:
  assumes eq: "a @ ''_'' @ x = b @ ''_'' @ y"
    and x: "CHR ''_'' \<notin> set x" and y: "CHR ''_'' \<notin> set y"
  shows "a = b \<and> x = y"
proof -
  have tw: "takeWhile (\<lambda>c. c \<noteq> CHR ''_'') (rev (p @ ''_'' @ z)) = rev z"
    if "CHR ''_'' \<notin> set z" for p z
  proof -
    have "\<And>c. c \<in> set (rev z) \<Longrightarrow> c \<noteq> CHR ''_''"
      using that by auto
    then have "takeWhile (\<lambda>c. c \<noteq> CHR ''_'') (rev z @ (CHR ''_'' # rev p))
        = rev z @ takeWhile (\<lambda>c. c \<noteq> CHR ''_'') (CHR ''_'' # rev p)"
      by (rule takeWhile_append2)
    then show ?thesis by simp
  qed
  from eq have "takeWhile (\<lambda>c. c \<noteq> CHR ''_'') (rev (a @ ''_'' @ x))
      = takeWhile (\<lambda>c. c \<noteq> CHR ''_'') (rev (b @ ''_'' @ y))" by simp
  then have "x = y" using tw[OF x] tw[OF y] by simp
  with eq show ?thesis by simp
qed

lemma register_key_inj: "register_key e1 t1 = register_key e2 t2 \<longleftrightarrow> e1 = e2 \<and> t1 = t2"
proof
  assume "register_key e1 t1 = register_key e2 t2"
  then have "e1 @ ''_'' @ dec t1 = e2 @ ''_'' @ dec t2"
    by (simp add: register_key_def)
  from split_last_underscore[OF this dec_no_underscore dec_no_underscore]
  show "e1 = e2 \<and> t1 = t2" by (auto dest: dec_inj)
qed simp

lemma login_key_inj: "login_key e1 t1 = login_key e2 t2 \<longleftrightarrow> e1 = e2 \<and> t1 = t2"
proof
  assume "login_key e1 t1 = login_key e2 t2"
  then have "e1 @ ''_'' @ dec t1 = e2 @ ''_'' @ dec t2"
    by (simp add: login_key_def)
  from split_last_underscore[OF this dec_no_underscore dec_no_underscore]
  show "e1 = e2 \<and> t1 = t2" by (auto dest: dec_inj)
qed simp

lemma register_key_not_login_key: "register_key e1 t1 \<noteq> login_key e2 t2"
  by (simp add: register_key_def login_key_def)

lemma register_begin_stores:
  assumes "register_begin this ef nf userId bytes now_key now_expires s
      = (Registration_begun options key, s')"
  shows "\<exists>e n. ef = Some e \<and> nf = Some n \<and> key = register_key e now_key \<and>
      challenges s' = (challenges s)(key \<mapsto>
        \<lparr>challenge = toString_base64url bytes, ch_email = e, ch_name = Some n,
         expires = now_expires + 300000\<rparr>) \<and> localStorage s' = localStorage s"
  using assms
  by (auto simp: register_begin_def Let_def generateRegistrationOptions_def
      split: option.splits if_splits)

lemma login_begin_stores:
  assumes "login_begin this ef bytes now_key now_expires s
      = (Authentication_begun options key, s')"
  shows "\<exists>e. ef = Some e \<and> key = login_key e now_key \<and>
      challenges s' = (challenges s)(key \<mapsto>
        \<lparr>challenge = toString_base64url bytes, ch_email = e, ch_name = None,
         expires = now_expires + 300000\<rparr>) \<and> localStorage s' = localStorage s"
  using assms
  by (auto simp: login_begin_def Let_def generateAuthenticationOptions_def
      split: option.splits if_splits)

subsection \<open>The claims about the ceremonies\<close>

text \<open>
  Claim C6. When a complete call (registration or authentication) carrying a credential
  and a key finds the challenge stored under the key and the clock is past the
  challenge's \<open>expires\<close>, the call answers 400 "Challenge expired", whatever the
  credential is, and the only change to the state is that the entry is deleted. The
  periodic sweep deletes such an entry as well.
\<close>

theorem expired_challenge_rejected:
  assumes "challenges s key = Some d" and "key \<noteq> []" and "now > expires d"
  shows "register_complete this jp ok (Some c) (Some key) now now2 s
           = (Error_reply 400 ''Challenge expired'', s\<lparr>challenges := (challenges s)(key := None)\<rparr>) \<and>
         login_complete this jp sign ok (Some c) (Some key) now now2 s
           = (Error_reply 400 ''Challenge expired'', s\<lparr>challenges := (challenges s)(key := None)\<rparr>) \<and>
         challenges (s\<lparr>challenges := (challenges s)(key := None)\<rparr>) key = None \<and>
         challenges (cleanupExpiredChallenges now s) key = None"
  using assms by (simp add: register_complete_found login_complete_found cleanup_removes)

theorem expired_challenge_rejected_witness:
  "challenges (snd begun1) ''challenge_a@x.com_1000''
     = Some \<lparr>challenge = ''AQID'', ch_email = ''a@x.com'', ch_name = Some ''Al'', expires = 301000\<rparr> \<and>
   fst (register_complete this0 sample_parse sample_storage (Some good_credential)
     (Some ''challenge_a@x.com_1000'') 2000 2000 (snd begun1)) = Registration_completed \<and>
   register_complete this0 sample_parse sample_storage (Some good_credential)
     (Some ''challenge_a@x.com_1000'') 301001 301001 (snd begun1)
     = (Error_reply 400 ''Challenge expired'', empty_server) \<and>
   login_complete this0 sample_parse sample_sign sample_storage (Some good_credential)
     (Some ''challenge_a@x.com_1000'') 301001 301001 (snd begun1)
     = (Error_reply 400 ''Challenge expired'', empty_server)"
proof -
  let ?d = "\<lparr>challenge = ''AQID'', ch_email = ''a@x.com'', ch_name = Some ''Al'', expires = 301000\<rparr>"
  have found: "challenges (snd begun1) ''challenge_a@x.com_1000'' = Some ?d"
    by (simp add: begun1_eval)
  have key: "''challenge_a@x.com_1000'' \<noteq> []" by simp
  have late: "301001 > expires ?d" by simp
  have after: "(snd begun1)\<lparr>challenges :=
      (challenges (snd begun1))(''challenge_a@x.com_1000'' := None)\<rparr> = empty_server"
    by (simp add: begun1_eval empty_server_def)
  have fresh: "fst (register_complete this0 sample_parse sample_storage (Some good_credential)
     (Some ''challenge_a@x.com_1000'') 2000 2000 (snd begun1)) = Registration_completed"
    using registered1_eval by (simp add: registered1_def)
  from expired_challenge_rejected[OF found key late, of this0 sample_parse sample_storage
      good_credential 301001 sample_sign] found fresh
  show ?thesis unfolding after by blast
qed

text \<open>
  Claim C2, at the inputs where the code departs from it. Every return of the two
  complete handlers that comes after the lookup deletes the challenge, but the \<open>catch\<close> of
  each handler does not. A registration for an email of 256 characters begins; its
  complete call, with a credential that verifies, answers 500 because the credential
  cannot be stored, and leaves the state as it was, so that the same call finds the
  challenge again instead of answering "Invalid or expired challenge". A login whose
  token cannot be signed answers 500 with the counter raised from 0 to 1 and the
  challenge still stored; a second complete call with the same key finds the challenge
  again, raises the counter to 2 when signing fails again, and is answered with success
  when signing works.
\<close>

theorem catch_path_keeps_challenge:
  "fst long_begun = Registration_begun
       (generateRegistrationOptions this0 [7] [1, 2, 3] long_email ''Al'')
       (register_key long_email 1000) \<and>
   length long_email = 256 \<and>
   long_failed = (Error_reply 500 ''Failed to complete registration'', snd long_begun) \<and>
   challenges (snd long_failed) (register_key long_email 1000)
     = Some \<lparr>challenge = ''AQID'', ch_email = long_email, ch_name = Some ''Al'', expires = 301000\<rparr> \<and>
   register_complete this0 sample_parse sample_storage (Some good_credential)
       (Some (register_key long_email 1000)) 2000 2000 (snd long_failed)
     = (Error_reply 500 ''Failed to complete registration'', snd long_failed) \<and>
   fst sign_failed1 = Error_reply 500 ''Failed to complete authentication'' \<and>
   challenges (snd sign_failed1) ''auth_challenge_a@x.com_5000''
     = Some \<lparr>challenge = ''AQID'', ch_email = ''a@x.com'', ch_name = None, expires = 305000\<rparr> \<and>
   map_option counter (localStorage (snd login_begun1) ''webauthn_a@x.com'') = Some 0 \<and>
   map_option counter (localStorage (snd sign_failed1) ''webauthn_a@x.com'') = Some 1 \<and>
   fst sign_failed2 = Error_reply 500 ''Failed to complete authentication'' \<and>
   map_option counter (localStorage (snd sign_failed2) ''webauthn_a@x.com'') = Some 2 \<and>
   fst (login_complete this0 sample_parse sample_sign sample_storage (Some good_credential)
       (Some ''auth_challenge_a@x.com_5000'') 6001 6001 (snd sign_failed1))
     = Authenticated ''token-for-a@x.com'' ''a@x.com'' (Some ''Al'')"
proof -
  have again: "register_complete this0 sample_parse sample_storage (Some good_credential)
       (Some (register_key long_email 1000)) 2000 2000 (snd long_failed)
     = (Error_reply 500 ''Failed to complete registration'', snd long_failed)"
    using long_failed_eval by (simp add: long_failed_def)
  have kept: "challenges (snd long_failed) (register_key long_email 1000)
     = Some \<lparr>challenge = ''AQID'', ch_email = long_email, ch_name = Some ''Al'', expires = 301000\<rparr>"
    by (simp add: long_failed_eval long_begun_eval)
  have begun: "fst long_begun = Registration_begun
       (generateRegistrationOptions this0 [7] [1, 2, 3] long_email ''Al'')
       (register_key long_email 1000)"
    by (simp add: long_begun_eval)
  have login: "fst sign_failed1 = Error_reply 500 ''Failed to complete authentication''"
    "challenges (snd sign_failed1) ''auth_challenge_a@x.com_5000''
     = Some \<lparr>challenge = ''AQID'', ch_email = ''a@x.com'', ch_name = None, expires = 305000\<rparr>"
    "map_option counter (localStorage (snd login_begun1) ''webauthn_a@x.com'') = Some 0"
    "map_option counter (localStorage (snd sign_failed1) ''webauthn_a@x.com'') = Some 1"
    "fst sign_failed2 = Error_reply 500 ''Failed to complete authentication''"
    "map_option counter (localStorage (snd sign_failed2) ''webauthn_a@x.com'') = Some 2"
    by (simp_all add: sign_failed1_eval sign_failed2_eval login_begun1_eval)
  have accepted: "fst (login_complete this0 sample_parse sample_sign sample_storage
       (Some good_credential) (Some ''auth_challenge_a@x.com_5000'') 6001 6001 (snd sign_failed1))
     = Authenticated ''token-for-a@x.com'' ''a@x.com'' (Some ''Al'')"
    by (simp add: login_after_sign_failed)
  show ?thesis
    using begun long_email_length(1) long_failed_eval kept again login accepted
    by (intro conjI)
qed

text \<open>
  After any list of requests served from the empty state, no stored counter exceeds the
  number of requests served: a stored counter below \<open>2^53\<close> is what every run of fewer
  than \<open>2^53\<close> requests has, and a successful login at the end of such a run stores
  exactly the old counter plus 1.
\<close>

lemma begin_keeps_storage:
  "localStorage (snd (register_begin this e n userId bytes t1 t2 s)) = localStorage s"
  "localStorage (snd (login_begin this e bytes t1 t2 s)) = localStorage s"
  "localStorage (cleanupExpiredChallenges t s) = localStorage s"
  by (auto simp: register_begin_def login_begin_def cleanupExpiredChallenges_def Let_def
      split: option.splits)

lemma register_complete_storage:
  assumes "localStorage (snd (register_complete this jp ok c k t1 t2 s)) key = Some data"
  shows "localStorage s key = Some data \<or> counter data = 0"
proof -
  have "rv_counter v = 0" if "verifyRegistrationCredential this jp cr ch = Inr v" for cr ch v
    using that by (auto simp: verifyRegistrationCredential_def
        split: option.splits if_splits sum.splits)
  with assms show ?thesis
    by (auto simp: register_complete_def Let_def split: option.splits sum.splits if_splits)
qed

lemma login_complete_storage:
  assumes "localStorage (snd (login_complete this jp sign ok c k t1 t2 s)) key = Some data"
  shows "localStorage s key = Some data \<or>
    (\<exists>sc. localStorage s key = Some sc \<and> data = sc\<lparr>counter := js_add_one (counter sc)\<rparr>)"
  using assms
  by (auto simp: login_complete_def Let_def dest!: verified_counter
      split: option.splits sum.splits if_splits)

lemma login_complete_keeps:
  assumes "localStorage s key = Some sc"
  shows "\<exists>sc'. localStorage (snd (login_complete this jp sign ok c k t1 t2 s)) key = Some sc' \<and>
      counter sc \<le> counter sc'"
  using assms js_add_one_ge[of "counter sc"]
  by (auto simp: login_complete_def Let_def dest!: verified_counter
      split: option.splits sum.splits if_splits)

lemma handle_counters:
  assumes bound: "\<And>k sc. localStorage s k = Some sc \<Longrightarrow> counter sc \<le> n"
    and n: "n < 2 ^ 53"
    and after: "localStorage (handle this jp sign ok s r) k = Some sc"
  shows "counter sc \<le> Suc n"
proof (cases r)
  case (Register_begin e nm userId bytes t1 t2)
  with after bound[of k sc] show ?thesis by (simp add: begin_keeps_storage)
next
  case (Register_complete c key t1 t2)
  with after have "localStorage (snd (register_complete this jp ok c key t1 t2 s)) k = Some sc"
    by simp
  from register_complete_storage[OF this] bound[of k sc] show ?thesis by auto
next
  case (Login_begin e bytes t1 t2)
  with after bound[of k sc] show ?thesis by (simp add: begin_keeps_storage)
next
  case (Login_complete c key t1 t2)
  with after have "localStorage (snd (login_complete this jp sign ok c key t1 t2 s)) k = Some sc"
    by simp
  from login_complete_storage[OF this]
  show ?thesis
  proof
    assume "localStorage s k = Some sc"
    from bound[OF this] show ?thesis by simp
  next
    assume "\<exists>c'. localStorage s k = Some c' \<and> sc = c'\<lparr>counter := js_add_one (counter c')\<rparr>"
    then obtain c' where c': "localStorage s k = Some c'"
      and sc: "sc = c'\<lparr>counter := js_add_one (counter c')\<rparr>" by blast
    from bound[OF c'] n have "counter c' < 2 ^ 53" by simp
    then have "js_add_one (counter c') = counter c' + 1" by (rule js_add_one_exact)
    with bound[OF c'] sc show ?thesis by simp
  qed
next
  case (Cleanup t)
  with after bound[of k sc] show ?thesis by (simp add: begin_keeps_storage)
qed

lemma served_counters:
  "length requests \<le> 2 ^ 53 \<Longrightarrow>
   localStorage (serve this jp sign ok empty_server requests) k = Some sc \<Longrightarrow>
   counter sc \<le> length requests"
proof (induction requests arbitrary: k sc rule: rev_induct)
  case Nil
  then show ?case by (simp add: serve_def empty_server_def)
next
  case (snoc r requests)
  let ?s = "serve this jp sign ok empty_server requests"
  from snoc.prems(1) have short: "length requests < 2 ^ 53" by simp
  then have b: "\<And>k' c'. localStorage ?s k' = Some c' \<Longrightarrow> counter c' \<le> length requests"
    using snoc.IH by simp
  from snoc.prems(2) have h: "localStorage (handle this jp sign ok ?s r) k = Some sc"
    by (simp add: serve_def)
  have "counter sc \<le> Suc (length requests)"
    using b short h by (rule handle_counters)
  then show ?case by simp
qed

lemma login_success_storage:
  assumes "login_complete this jp sign ok credential_field key_field now now2 s
      = (Authenticated token e n, s')"
  shows "\<exists>sc. localStorage s (''webauthn_'' @ e) = Some sc \<and>
      localStorage s' (''webauthn_'' @ e) = Some (sc\<lparr>counter := js_add_one (counter sc)\<rparr>)"
  using assms
  by (auto simp: login_complete_def Let_def dest!: verified_counter
      split: option.splits if_splits sum.splits)

lemma served_login_increments:
  assumes short: "length requests < 2 ^ 53"
    and s: "s = serve this' jp' sign' ok' empty_server requests"
    and run: "login_complete this jp sign ok credential_field key_field now now2 s
      = (Authenticated token e n, s')"
  shows "\<exists>sc. localStorage s (''webauthn_'' @ e) = Some sc \<and>
      localStorage s' (''webauthn_'' @ e) = Some (sc\<lparr>counter := counter sc + 1\<rparr>)"
proof -
  from login_success_storage[OF run] obtain sc
    where sc: "localStorage s (''webauthn_'' @ e) = Some sc"
      and s': "localStorage s' (''webauthn_'' @ e)
        = Some (sc\<lparr>counter := js_add_one (counter sc)\<rparr>)"
    by blast
  from short have "length requests \<le> 2 ^ 53" by simp
  from served_counters[OF this sc[unfolded s]] short have "counter sc < 2 ^ 53" by simp
  then have "js_add_one (counter sc) = counter sc + 1" by (rule js_add_one_exact)
  with sc s' show ?thesis by simp
qed

text \<open>
  Claim C3. When an authentication complete call answers with success for an email, a
  credential was stored for that email before the call, and after the call the stored
  record is that record with its counter replaced by the double-precision sum of the
  stored counter and 1: a value computed from the stored record alone, not from the
  request. For a stored counter below \<open>2^53\<close>, which is every counter a run of fewer than
  \<open>2^53\<close> requests can store, that is exactly the old counter plus 1. In every outcome of
  the call, every stored credential is still stored afterwards with a counter that is
  not smaller than before.
\<close>

theorem login_counter_increment:
  assumes run: "login_complete this jp sign ok credential_field key_field now now2 s = (r, s')"
  shows "(\<forall>token e n. r = Authenticated token e n \<longrightarrow>
            (\<exists>sc. localStorage s (''webauthn_'' @ e) = Some sc \<and>
               localStorage s' (''webauthn_'' @ e)
                 = Some (sc\<lparr>counter := js_add_one (counter sc)\<rparr>) \<and>
               (counter sc < 2 ^ 53 \<longrightarrow>
                  localStorage s' (''webauthn_'' @ e) = Some (sc\<lparr>counter := counter sc + 1\<rparr>)))) \<and>
         (\<forall>k sc. localStorage s k = Some sc \<longrightarrow>
            (\<exists>sc'. localStorage s' k = Some sc' \<and> counter sc \<le> counter sc'))"
proof -
  have success: "\<exists>sc. localStorage s (''webauthn_'' @ e) = Some sc \<and>
      localStorage s' (''webauthn_'' @ e) = Some (sc\<lparr>counter := js_add_one (counter sc)\<rparr>)"
    if "r = Authenticated token e n" for token e n
    using run unfolding that by (rule login_success_storage)
  have exact: "\<exists>sc. localStorage s (''webauthn_'' @ e) = Some sc \<and>
      localStorage s' (''webauthn_'' @ e) = Some (sc\<lparr>counter := js_add_one (counter sc)\<rparr>) \<and>
      (counter sc < 2 ^ 53 \<longrightarrow>
         localStorage s' (''webauthn_'' @ e) = Some (sc\<lparr>counter := counter sc + 1\<rparr>))"
    if "r = Authenticated token e n" for token e n
    using success[OF that] by (auto simp: js_add_one_exact)
  have keep: "\<exists>sc'. localStorage s' k = Some sc' \<and> counter sc \<le> counter sc'"
    if "localStorage s k = Some sc" for k sc
    using login_complete_keeps[OF that, of this jp sign ok credential_field key_field now now2] run
    by simp
  show ?thesis using exact keep by blast
qed

theorem login_counter_increment_witness:
  "login_complete this0 sample_parse sample_sign sample_storage (Some good_credential)
     (Some ''auth_challenge_a@x.com_5000'') 6000 6000 (snd login_begun1)
     = (Authenticated ''token-for-a@x.com'' ''a@x.com'' (Some ''Al''), snd logged_in1) \<and>
   map_option counter (localStorage (snd login_begun1) ''webauthn_a@x.com'') = Some 0 \<and>
   map_option counter (localStorage (snd logged_in1) ''webauthn_a@x.com'') = Some 1"
proof -
  have run: "login_complete this0 sample_parse sample_sign sample_storage (Some good_credential)
     (Some ''auth_challenge_a@x.com_5000'') 6000 6000 (snd login_begun1)
     = (Authenticated ''token-for-a@x.com'' ''a@x.com'' (Some ''Al''), snd logged_in1)"
    using logged_in1_eval by (simp add: logged_in1_def)
  have before: "map_option counter (localStorage (snd login_begun1) ''webauthn_a@x.com'') = Some 0"
    by (simp add: login_begun1_eval)
  from login_counter_increment[OF run]
  obtain sc where sc: "localStorage (snd login_begun1) (''webauthn_'' @ ''a@x.com'') = Some sc"
    and step: "counter sc < 2 ^ 53 \<longrightarrow> localStorage (snd logged_in1) (''webauthn_'' @ ''a@x.com'')
      = Some (sc\<lparr>counter := counter sc + 1\<rparr>)"
    by blast
  from sc before have zero: "counter sc = 0" by simp
  then have "counter sc < 2 ^ 53" by simp
  with step zero
  have "map_option counter (localStorage (snd logged_in1) ''webauthn_a@x.com'') = Some 1"
    by simp
  with run before show ?thesis by blast
qed

text \<open>
  Claim C9, as amended. The key of a begin call is determined by the kind of ceremony,
  the email and the millisecond reading of the clock: two registration keys (and two
  authentication keys) are equal exactly when email and reading are equal, and a
  registration key never equals an authentication key. A successful begin call stores
  its challenge under its key and leaves the entries under all other keys as they were.
\<close>

theorem challenge_key_determined:
  "(register_key ea ta = register_key eb tb \<longleftrightarrow> ea = eb \<and> ta = tb) \<and>
   (login_key ea ta = login_key eb tb \<longleftrightarrow> ea = eb \<and> ta = tb) \<and>
   register_key ea ta \<noteq> login_key eb tb \<and>
   (\<forall>options key s'. register_begin this ef nf userId bytes now_key now_expires s
        = (Registration_begun options key, s') \<longrightarrow>
      (\<exists>e. ef = Some e \<and> key = register_key e now_key) \<and>
      map_option challenge (challenges s' key) = Some (toString_base64url bytes) \<and>
      (\<forall>k. k \<noteq> key \<longrightarrow> challenges s' k = challenges s k)) \<and>
   (\<forall>options key s'. login_begin this ef bytes now_key now_expires s
        = (Authentication_begun options key, s') \<longrightarrow>
      (\<exists>e. ef = Some e \<and> key = login_key e now_key) \<and>
      map_option challenge (challenges s' key) = Some (toString_base64url bytes) \<and>
      (\<forall>k. k \<noteq> key \<longrightarrow> challenges s' k = challenges s k))"
proof -
  have r: "(\<exists>e. ef = Some e \<and> key = register_key e now_key) \<and>
      map_option challenge (challenges s' key) = Some (toString_base64url bytes) \<and>
      (\<forall>k. k \<noteq> key \<longrightarrow> challenges s' k = challenges s k)"
    if "register_begin this ef nf userId bytes now_key now_expires s
        = (Registration_begun options key, s')" for options key s'
    using register_begin_stores[OF that] by auto
  have l: "(\<exists>e. ef = Some e \<and> key = login_key e now_key) \<and>
      map_option challenge (challenges s' key) = Some (toString_base64url bytes) \<and>
      (\<forall>k. k \<noteq> key \<longrightarrow> challenges s' k = challenges s k)"
    if "login_begin this ef bytes now_key now_expires s
        = (Authentication_begun options key, s')" for options key s'
    using login_begin_stores[OF that] by auto
  from r have r': "\<forall>options key s'. register_begin this ef nf userId bytes now_key now_expires s
        = (Registration_begun options key, s') \<longrightarrow>
      (\<exists>e. ef = Some e \<and> key = register_key e now_key) \<and>
      map_option challenge (challenges s' key) = Some (toString_base64url bytes) \<and>
      (\<forall>k. k \<noteq> key \<longrightarrow> challenges s' k = challenges s k)"
    by (intro allI impI)
  from l have l': "\<forall>options key s'. login_begin this ef bytes now_key now_expires s
        = (Authentication_begun options key, s') \<longrightarrow>
      (\<exists>e. ef = Some e \<and> key = login_key e now_key) \<and>
      map_option challenge (challenges s' key) = Some (toString_base64url bytes) \<and>
      (\<forall>k. k \<noteq> key \<longrightarrow> challenges s' k = challenges s k)"
    by (intro allI impI)
  show ?thesis
    by (intro conjI register_key_inj login_key_inj register_key_not_login_key r' l')
qed

theorem challenge_key_determined_witness:
  "register_key ''a@x.com'' 1000 \<noteq> register_key ''a@x.com'' 1001 \<and>
   register_key ''a@x.com'' 1000 \<noteq> register_key ''b@x.com'' 1000 \<and>
   register_begin this0 (Some ''a@x.com'') (Some ''Al'') [7] [1, 2, 3] 1000 1000 empty_server
     = (Registration_begun (generateRegistrationOptions this0 [7] [1, 2, 3] ''a@x.com'' ''Al'')
          ''challenge_a@x.com_1000'', snd begun1) \<and>
   map_option challenge (challenges (snd begun1) ''challenge_a@x.com_1000'') = Some ''AQID'' \<and>
   challenges (snd begun1) ''challenge_b@x.com_1000'' = None"
proof -
  have run: "register_begin this0 (Some ''a@x.com'') (Some ''Al'') [7] [1, 2, 3] 1000 1000 empty_server
     = (Registration_begun (generateRegistrationOptions this0 [7] [1, 2, 3] ''a@x.com'' ''Al'')
          ''challenge_a@x.com_1000'', snd begun1)"
    using begun1_eval by (simp add: begun1_def)
  have other: "''challenge_b@x.com_1000'' \<noteq> ''challenge_a@x.com_1000''" by simp
  have empty: "challenges empty_server ''challenge_b@x.com_1000'' = None"
    by (simp add: empty_server_def)
  have k1: "register_key ''a@x.com'' 1000 \<noteq> register_key ''a@x.com'' 1001"
    using challenge_key_determined[where ea = "''a@x.com''" and ta = 1000
        and eb = "''a@x.com''" and tb = 1001, THEN conjunct1]
    by simp
  have k2: "register_key ''a@x.com'' 1000 \<noteq> register_key ''b@x.com'' 1000"
    using challenge_key_determined[where ea = "''a@x.com''" and ta = 1000
        and eb = "''b@x.com''" and tb = 1000, THEN conjunct1]
    by simp
  note st = challenge_key_determined[where this = this0 and ef = "Some ''a@x.com''"
      and nf = "Some ''Al''" and userId = "[7]" and bytes = "[1, 2, 3]" and now_key = 1000
      and now_expires = 1000 and s = empty_server,
      THEN conjunct2, THEN conjunct2, THEN conjunct2, THEN conjunct1, rule_format, OF run]
  from st[THEN conjunct2, THEN conjunct1]
  have c1: "map_option challenge (challenges (snd begun1) ''challenge_a@x.com_1000'')
      = Some ''AQID''"
    by (simp only: encode_sample)
  from st[THEN conjunct2, THEN conjunct2, rule_format, OF other] empty
  have c2: "challenges (snd begun1) ''challenge_b@x.com_1000'' = None"
    by simp
  from k1 k2 run c1 c2 show ?thesis by simp
qed

text \<open>
  Claim C9 as stated fails: two registration begin calls for the same email in the same
  millisecond get the same key, and the second call replaces the pending challenge of
  the first.
\<close>

theorem begin_same_millisecond_overwrites:
  "fst begun1 = Registration_begun
       (generateRegistrationOptions this0 [7] [1, 2, 3] ''a@x.com'' ''Al'') ''challenge_a@x.com_1000'' \<and>
   challenges (snd begun1) ''challenge_a@x.com_1000''
     = Some \<lparr>challenge = ''AQID'', ch_email = ''a@x.com'', ch_name = Some ''Al'', expires = 301000\<rparr> \<and>
   fst begun2 = Registration_begun
       (generateRegistrationOptions this0 [8] [4, 5, 6] ''a@x.com'' ''Al'') ''challenge_a@x.com_1000'' \<and>
   challenges (snd begun2) ''challenge_a@x.com_1000''
     = Some \<lparr>challenge = ''BAUG'', ch_email = ''a@x.com'', ch_name = Some ''Al'', expires = 301000\<rparr>"
  by (simp add: begun1_eval begun2_eval)

end
